theory Spec2Isabelle
  imports Main "HOL-Library.Word" "HOL-Library.Log_Nat" "HOL-Library.AList"
begin

unbundle bit_operations_syntax

section \<open>Decoding the octal flag mask (readFlags)\<close>

text \<open>
  The flag names are the keys of the source's \<^verbatim>\<open>FILE_FLAGS\<close> object, in the order in
  which the object literal lists them. None of the keys is an integer index, so
  \<^verbatim>\<open>Object.keys(FILE_FLAGS)\<close> enumerates them in exactly this order.
\<close>

datatype FileFlag =
    O_RDONLY | O_WRONLY | O_RDWR | O_APPEND | O_NONBLOCK | O_NDELAY | O_SYNC | O_ASYNC
  | O_DSYNC | O_NOATIME | O_CLOEXEC
  | S_IFIFO | S_IFCHR | S_IFDIR | S_IFBLK | S_IFREG | S_IFLNK | S_IFSOCK

text \<open>The value of an octal literal, from its digits (most significant first).\<close>

definition oct :: "nat list \<Rightarrow> nat" where
  "oct ds = foldl (\<lambda>a d. 8 * a + d) 0 ds"

definition FILE_FLAGS :: "(FileFlag \<times> nat) list" where
  "FILE_FLAGS =
    [(O_RDONLY, oct [0]),
     (O_WRONLY, oct [1]),
     (O_RDWR, oct [2]),
     (O_APPEND, oct [2,0,0,0]),
     (O_NONBLOCK, oct [4,0,0,0]),
     (O_NDELAY, oct [4,0,0,0]),
     (O_SYNC, oct [4,0,1,0,0,0,0]),
     (O_ASYNC, oct [2,0,0,0,0]),
     (O_DSYNC, oct [1,0,0,0,0]),
     (O_NOATIME, oct [1,0,0,0,0,0,0]),
     (O_CLOEXEC, oct [2,0,0,0,0,0,0]),
     (S_IFIFO, oct [0,1,0,0,0,0]),
     (S_IFCHR, oct [0,2,0,0,0,0]),
     (S_IFDIR, oct [0,4,0,0,0,0]),
     (S_IFBLK, oct [0,6,0,0,0,0]),
     (S_IFREG, oct [1,0,0,0,0,0]),
     (S_IFLNK, oct [1,2,0,0,0,0]),
     (S_IFSOCK, oct [1,4,0,0,0,0])]"

subsection \<open>JavaScript numbers, as far as parseInt and the bitwise operators need them\<close>

text \<open>
  \<^verbatim>\<open>parseInt(s, 8)\<close> yields NaN, an infinity, or an integer-valued double. The bitwise
  operators first apply ToInt32, which sends NaN and the infinities to 0 and every other
  value to its residue modulo \<open>2 ^ 32\<close>; a \<open>32 word\<close> holds that residue.
\<close>

datatype number = NaN | Infinity | NegInfinity | Finite int

text \<open>
  The double nearest to a non-negative integer (round to nearest, ties to even; a
  result of \<open>2 ^ 1024\<close> or more overflows to Infinity). Integers below \<open>2 ^ 53\<close> are
  doubles themselves.
\<close>

definition nearest_double :: "nat \<Rightarrow> number" where
  "nearest_double m =
     (if m < 2 ^ 53 then Finite (int m)
      else
        let e = floorlog 2 m - 53;
            q = m div 2 ^ e;
            r = m mod 2 ^ e;
            q' = (if 2 ^ e < 2 * r \<or> (2 * r = 2 ^ e \<and> odd q) then q + 1 else q);
            v = q' * 2 ^ e
        in if 2 ^ 1024 \<le> v then Infinity else Finite (int v))"

definition negate :: "number \<Rightarrow> number" where
  "negate x = (case x of NaN \<Rightarrow> NaN | Infinity \<Rightarrow> NegInfinity | NegInfinity \<Rightarrow> Infinity
                | Finite n \<Rightarrow> Finite (- n))"

text \<open>
  Strings are lists of 8-bit characters. Of the characters JavaScript treats as white
  space (in parseInt and in trim) these are tab, line feed, vertical tab, form feed,
  carriage return, space and no-break space.
\<close>

definition isWhiteSpace :: "char \<Rightarrow> bool" where
  "isWhiteSpace c = (of_char c \<in> {9, 10, 11, 12, 13, 32, 160 :: nat})"

definition isOctalDigit :: "char \<Rightarrow> bool" where
  "isOctalDigit c = (48 \<le> (of_char c :: nat) \<and> (of_char c :: nat) \<le> 55)"

definition digitValue :: "char \<Rightarrow> nat" where
  "digitValue c = of_char c - 48"

text \<open>
  \<^verbatim>\<open>parseInt(octalStr, 8)\<close>: skip leading white space, read an optional sign, take the
  longest run of radix-8 digits (NaN when it is empty; anything after the run is
  ignored), and convert the integer it denotes to a Number. The radix is 8, so no
  \<^verbatim>\<open>0x\<close> prefix is stripped.
\<close>

definition parseInt8 :: "string \<Rightarrow> number" where
  "parseInt8 inputString =
     (let S = dropWhile isWhiteSpace inputString;
          negative = (case S of [] \<Rightarrow> False | c # _ \<Rightarrow> c = CHR ''-'');
          S' = (case S of [] \<Rightarrow> [] | c # cs \<Rightarrow> if c = CHR ''+'' \<or> c = CHR ''-'' then cs else S);
          Z = takeWhile isOctalDigit S'
      in if Z = [] then NaN
         else let mathInt = oct (map digitValue Z)
              in if negative then negate (nearest_double mathInt) else nearest_double mathInt)"

definition ToInt32 :: "number \<Rightarrow> 32 word" where
  "ToInt32 x = (case x of Finite n \<Rightarrow> word_of_int n | _ \<Rightarrow> 0)"

subsection \<open>The array operations readFlags uses\<close>

text \<open>\<^verbatim>\<open>Array.prototype.indexOf\<close>: the first index of the element, or \<open>-1\<close>.\<close>

fun indexOf :: "'a list \<Rightarrow> 'a \<Rightarrow> int" where
  "indexOf [] x = - 1"
| "indexOf (y # ys) x =
     (if y = x then 0 else (let i = indexOf ys x in if i < 0 then - 1 else i + 1))"

text \<open>
  \<^verbatim>\<open>Array.prototype.splice(start, deleteCount)\<close> with no inserted items, returning the
  array as it is left: a negative \<open>start\<close> counts from the end, and the deletion is
  clipped to the array.
\<close>

definition splice :: "'a list \<Rightarrow> int \<Rightarrow> nat \<Rightarrow> 'a list" where
  "splice xs start deleteCount =
     (let len = int (length xs);
          actualStart = nat (if start < 0 then max (len + start) 0 else min start len);
          actualDeleteCount = min deleteCount (length xs - actualStart)
      in take actualStart xs @ drop (actualStart + actualDeleteCount) xs)"

subsection \<open>readFlags\<close>

text \<open>The first loop: every flag whose bits are all present in the value, in key order.\<close>

definition matchingFlags :: "32 word \<Rightarrow> FileFlag list" where
  "matchingFlags octal =
     map fst (filter (\<lambda>(flag, v). octal AND of_nat v = of_nat v) FILE_FLAGS)"

text \<open>The edge case after the first loop, on the array of matched flags.\<close>

definition dropReadOnly :: "FileFlag list \<Rightarrow> FileFlag list" where
  "dropReadOnly flags =
     (if O_WRONLY \<in> set flags \<or> O_RDWR \<in> set flags
      then splice flags (indexOf flags O_RDONLY) 1
      else flags)"

definition readFlags :: "string \<Rightarrow> FileFlag list" where
  "readFlags octalStr = dropReadOnly (matchingFlags (ToInt32 (parseInt8 octalStr)))"

text \<open>
  The second loop clears the bits of every flag that still matches; the function warns
  on the console when bits remain. The warning does not change the returned array.
\<close>

definition remainingBits :: "32 word \<Rightarrow> 32 word" where
  "remainingBits octal =
     fold (\<lambda>(flag, v) octal. if octal AND of_nat v = of_nat v then octal AND NOT (of_nat v)
                              else octal) FILE_FLAGS octal"

definition readFlagsWarns :: "string \<Rightarrow> bool" where
  "readFlagsWarns octalStr = (remainingBits (ToInt32 (parseInt8 octalStr)) \<noteq> 0)"

text \<open>
  The behaviour the specification asks the splice to be equivalent to: when a write-mode
  alias is present, remove the read-only alias if it is present.
\<close>

definition dropReadOnly_spec :: "FileFlag list \<Rightarrow> FileFlag list" where
  "dropReadOnly_spec flags =
     (if O_WRONLY \<in> set flags \<or> O_RDWR \<in> set flags
      then (if O_RDONLY \<in> set flags then remove1 O_RDONLY flags else flags)
      else flags)"

definition readFlags_spec :: "string \<Rightarrow> FileFlag list" where
  "readFlags_spec octalStr = dropReadOnly_spec (matchingFlags (ToInt32 (parseInt8 octalStr)))"

section \<open>Rebuilding the per-namespace tables (reconstructTables)\<close>

text \<open>
  A JavaScript object used as a dictionary is modelled as an association list with
  distinct keys, holding the object's own properties in enumeration order. Reading a
  property is \<open>map_of\<close>; assigning one is \<open>AList.update\<close>, which replaces the value
  of a key that is present and appends a new key otherwise. Numbers that the kernel
  module prints as integers (pids, descriptor numbers, offsets) are \<open>int\<close>.
\<close>

record RawFileInfo =
  fd :: int
  closeOnExec :: bool
  openFileID :: string
  pos :: int
  flags :: "FileFlag list"
  vnodeName :: string

record RawProcessInfo =
  namespaceID :: string
  globalPID :: int
  containerPID :: int
  containerPPID :: int
  containerPGID :: int
  command :: string
  files :: "(int \<times> RawFileInfo) list"

type_synonym RawContainerInfo = "(string \<times> RawProcessInfo) list"

type_synonym RawInfoByNamespace = "(string \<times> RawContainerInfo) list"

text \<open>
  The types of the client-facing tables are declared in the repository's
  \<^verbatim>\<open>common/communication\<close> module; their fields are the ones the functions below write
  (and the ones of the source's \<^verbatim>\<open>MOCK_DATA\<close>).
\<close>

record FileDescriptor =
  fd_file :: string
  fd_closeOnExec :: bool

type_synonym FileDescriptorTable = "(int \<times> FileDescriptor) list"

record Process =
  pid :: int
  ppid :: int
  pgid :: int
  process_command :: string
  fds :: FileDescriptorTable

record OpenFileEntry =
  position :: int
  entry_flags :: "FileFlag list"
  refcount :: nat
  vnode :: string

type_synonym OpenFileTable = "(string \<times> OpenFileEntry) list"

record VnodeEntry =
  name :: string
  vnode_refcount :: nat

type_synonym VnodeTable = "(string \<times> VnodeEntry) list"

record ContainerInfo =
  processes :: "Process list"
  openFiles :: OpenFileTable
  vnodes :: VnodeTable

type_synonym CleanedInfoByNamespace = "(int \<times> ContainerInfo) list"

text \<open>
  The errors the server code throws. \<open>DebugDataError\<close> carries a short form of the
  source's message (the source appends a JSON rendering of the two entries).
\<close>

datatype error =
    DebugDataError string
  | ClientValidationError string
  | DebugStateError string
  | TypeError string

text \<open>
  The tables are created as \<^verbatim>\<open>{}\<close>, so they inherit the properties of
  \<^verbatim>\<open>Object.prototype\<close>: for these keys \<^verbatim>\<open>table[key] === undefined\<close> is false although
  the table has no such entry of its own.
\<close>

definition Object_prototype_keys :: "string list" where
  "Object_prototype_keys =
    [''constructor'', ''__defineGetter__'', ''__defineSetter__'', ''hasOwnProperty'',
     ''__lookupGetter__'', ''__lookupSetter__'', ''isPrototypeOf'', ''propertyIsEnumerable'',
     ''toString'', ''valueOf'', ''__proto__'', ''toLocaleString'']"

text \<open>
  \<^verbatim>\<open>deepCompare\<close> compares the JSON renderings of its arguments. The open-file entries
  are compared with \<^verbatim>\<open>refcount: undefined\<close>, which JSON omits: what is compared is the
  rest of the entry. JSON renders integers, strings and arrays of flag names
  injectively, so the renderings are equal exactly when the values are.
\<close>

definition deepCompare :: "'a \<Rightarrow> 'a \<Rightarrow> bool" where
  "deepCompare obj1 obj2 = (obj1 = obj2)"

definition without_refcount :: "OpenFileEntry \<Rightarrow> int \<times> FileFlag list \<times> string" where
  "without_refcount e = (position e, entry_flags e, vnode e)"

definition populateProcessTable :: "RawProcessInfo list \<Rightarrow> Process list" where
  "populateProcessTable rawProcesses =
     map (\<lambda>proc.
       \<lparr>pid = containerPID proc,
        ppid = containerPPID proc,
        pgid = containerPGID proc,
        process_command = command proc,
        fds = fold (\<lambda>f table. AList.update (fd f)
                      \<lparr>fd_file = openFileID f, fd_closeOnExec = closeOnExec f\<rparr> table)
                (map snd (files proc)) []\<rparr>) rawProcesses"

fun populateOpenFileTable_loop :: "RawFileInfo list \<Rightarrow> OpenFileTable \<Rightarrow> error + OpenFileTable" where
  "populateOpenFileTable_loop [] table = Inr table"
| "populateOpenFileTable_loop (f # rawFiles) table =
     (let openFileEntry =
            \<lparr>position = pos f, entry_flags = flags f, refcount = 1, vnode = vnodeName f\<rparr>
      in if openFileID f \<in> set Object_prototype_keys
         then Inl (DebugDataError ''There is already an open file with different info'')
         else (case map_of table (openFileID f) of
             None \<Rightarrow>
               populateOpenFileTable_loop rawFiles
                 (AList.update (openFileID f) openFileEntry table)
           | Some existing \<Rightarrow>
               if deepCompare (without_refcount openFileEntry) (without_refcount existing)
               then populateOpenFileTable_loop rawFiles
                      (AList.update (openFileID f)
                         (existing\<lparr>refcount := refcount existing + 1\<rparr>) table)
               else Inl (DebugDataError ''There is already an open file with different info'')))"

definition populateOpenFileTable :: "RawFileInfo list \<Rightarrow> error + OpenFileTable" where
  "populateOpenFileTable rawFiles = populateOpenFileTable_loop rawFiles []"

text \<open>The first loop of populateVnodeTable: one zero-refcount entry per vnode name.\<close>

fun populateVnodeTable_entries :: "RawFileInfo list \<Rightarrow> VnodeTable \<Rightarrow> error + VnodeTable" where
  "populateVnodeTable_entries [] table = Inr table"
| "populateVnodeTable_entries (f # rawFiles) table =
     (let vnodeEntry = \<lparr>name = vnodeName f, vnode_refcount = 0\<rparr>
      in if vnodeName f \<in> set Object_prototype_keys
         then Inl (DebugDataError ''There is already a vnode with different info'')
         else (case map_of table (vnodeName f) of
             None \<Rightarrow> populateVnodeTable_entries rawFiles
                       (AList.update (vnodeName f) vnodeEntry table)
           | Some existing \<Rightarrow>
               if \<not> deepCompare vnodeEntry existing
               then Inl (DebugDataError ''There is already a vnode with different info'')
               else populateVnodeTable_entries rawFiles table))"

text \<open>
  The second loop: one increment per open-file entry. Reading \<^verbatim>\<open>refcount\<close> of an
  entry that does not exist is a TypeError in the source. (From cleanContainerData the
  loop only meets vnode names that the first loop has entered.)
\<close>

fun populateVnodeTable_refcounts :: "OpenFileEntry list \<Rightarrow> VnodeTable \<Rightarrow> error + VnodeTable" where
  "populateVnodeTable_refcounts [] table = Inr table"
| "populateVnodeTable_refcounts (openFile # rest) table =
     (case map_of table (vnode openFile) of
        None \<Rightarrow> Inl (TypeError ''Cannot read property refcount of undefined'')
      | Some v \<Rightarrow>
          populateVnodeTable_refcounts rest
            (AList.update (vnode openFile) (v\<lparr>vnode_refcount := vnode_refcount v + 1\<rparr>) table))"

definition populateVnodeTable :: "RawFileInfo list \<Rightarrow> OpenFileTable \<Rightarrow> error + VnodeTable" where
  "populateVnodeTable rawFiles openFileTable =
     (case populateVnodeTable_entries rawFiles [] of
        Inl e \<Rightarrow> Inl e
      | Inr table \<Rightarrow> populateVnodeTable_refcounts (map snd openFileTable) table)"

definition cleanContainerData :: "RawContainerInfo \<Rightarrow> error + (int \<times> ContainerInfo)" where
  "cleanContainerData rawProcesses =
     (case map_of rawProcesses ''1'' of
        None \<Rightarrow> Inl (DebugDataError ''This namespace seems to be missing an init process!'')
      | Some initProcess \<Rightarrow>
          let procs = filter (\<lambda>proc. containerPID proc > 1) (map snd rawProcesses);
              rawFiles = concat (map (\<lambda>process. map snd (files process)) procs)
          in (case populateOpenFileTable rawFiles of
                Inl e \<Rightarrow> Inl e
              | Inr openFileTable \<Rightarrow>
                  (case populateVnodeTable rawFiles openFileTable of
                     Inl e \<Rightarrow> Inl e
                   | Inr vnodeTable \<Rightarrow>
                       Inr (globalPID initProcess,
                            \<lparr>processes = populateProcessTable procs,
                             openFiles = openFileTable,
                             vnodes = vnodeTable\<rparr>))))"

text \<open>
  reconstructTables catches whatever cleanContainerData throws and goes on with the
  next namespace; a namespace that reconstructs is stored under its init process's
  global pid.
\<close>

definition reconstructTables :: "RawInfoByNamespace \<Rightarrow> CleanedInfoByNamespace" where
  "reconstructTables namespaces =
     fold (\<lambda>(namespaceID, rawProcesses) containers.
             case cleanContainerData rawProcesses of
               Inl exc \<Rightarrow> containers
             | Inr (initPID, data) \<Rightarrow> AList.update initPID data containers)
          namespaces []"

subsection \<open>What the reference-count claims count\<close>

text \<open>
  The number of descriptor-table entries, over a list of exposed processes, whose
  \<open>file\<close> field names a given open-file id.
\<close>

definition descriptor_refs :: "Process list \<Rightarrow> string \<Rightarrow> nat" where
  "descriptor_refs ps ident =
     sum_list (map (\<lambda>p. length (filter (\<lambda>(n, d). fd_file d = ident) (fds p))) ps)"

text \<open>The number of open-file entries whose \<open>vnode\<close> field names a given vnode.\<close>

definition openFile_refs :: "OpenFileTable \<Rightarrow> string \<Rightarrow> nat" where
  "openFile_refs tbl v = length (filter (\<lambda>(ident, e). vnode e = v) tbl)"

text \<open>
  loadRawProcessInfo stores every file record of a process under its descriptor number
  (\<^verbatim>\<open>currProcess.files[file.fd] = ...\<close>), so one process never holds two records
  with the same \<open>fd\<close>.
\<close>

definition descriptors_distinct :: "RawContainerInfo \<Rightarrow> bool" where
  "descriptors_distinct raw =
     list_all (\<lambda>(k, p). distinct (map (\<lambda>(n, f). fd f) (files p))) raw"

text \<open>
  The two places of loadRawProcessInfo that make it so: readProcessLine returns a process
  with an empty file table, and the only write to a file table is the store of a record
  under its own descriptor number.
\<close>

definition storeFile :: "RawProcessInfo \<Rightarrow> RawFileInfo \<Rightarrow> RawProcessInfo" where
  "storeFile currProcess f = currProcess\<lparr>files := AList.update (fd f) f (files currProcess)\<rparr>"

definition keyed_by_fd :: "RawProcessInfo \<Rightarrow> bool" where
  "keyed_by_fd p = (distinct (map fst (files p)) \<and> list_all (\<lambda>(k, f). k = fd f) (files p))"

text \<open>
  The file records that cleanContainerData folds (those of the processes it exposes),
  and the file records of all processes of the namespace.
\<close>

definition exposed_files :: "RawContainerInfo \<Rightarrow> RawFileInfo list" where
  "exposed_files raw =
     concat (map (\<lambda>p. map snd (files p)) (filter (\<lambda>p. containerPID p > 1) (map snd raw)))"

definition all_files :: "RawContainerInfo \<Rightarrow> RawFileInfo list" where
  "all_files raw = concat (map (\<lambda>p. map snd (files p)) (map snd raw))"

text \<open>What an open-file id must determine: offset, flags and vnode.\<close>

definition file_data :: "RawFileInfo \<Rightarrow> int \<times> FileFlag list \<times> string" where
  "file_data f = (pos f, flags f, vnodeName f)"

text \<open>Two records carry the same open-file id but differ in offset, flags or vnode.\<close>

definition conflicting :: "RawFileInfo list \<Rightarrow> bool" where
  "conflicting fs =
     list_ex (\<lambda>f. list_ex (\<lambda>g. openFileID f = openFileID g \<and> file_data f \<noteq> file_data g) fs) fs"

text \<open>A record whose open-file id or vnode name is an inherited property name.\<close>

definition inherited_key :: "RawFileInfo list \<Rightarrow> bool" where
  "inherited_key fs =
     list_ex (\<lambda>f. openFileID f \<in> set Object_prototype_keys
                  \<or> vnodeName f \<in> set Object_prototype_keys) fs"

definition occurrences :: "RawFileInfo list \<Rightarrow> string \<Rightarrow> nat" where
  "occurrences fs ident = length (filter (\<lambda>f. openFileID f = ident) fs)"

text \<open>
  A namespace that reconstructs: it has an entry under the key \<^verbatim>\<open>'1'\<close>, the file
  records of its exposed processes do not conflict, and none of them uses an inherited
  property name as a key.
\<close>

definition well_formed :: "RawContainerInfo \<Rightarrow> bool" where
  "well_formed raw =
     (map_of raw ''1'' \<noteq> None \<and> \<not> conflicting (exposed_files raw)
      \<and> \<not> inherited_key (exposed_files raw))"

text \<open>The global pid of the namespace's init process, when it has one.\<close>

definition initPID_of :: "RawContainerInfo \<Rightarrow> int option" where
  "initPID_of raw = map_option globalPID (map_of raw ''1'')"


subsection \<open>Sample namespaces\<close>

text \<open>
  A namespace in which two processes (pids 7 and 8) share one open file, as a parent
  and its child do.
\<close>

definition shared_terminal :: RawFileInfo where
  "shared_terminal =
     \<lparr>fd = 0, closeOnExec = False, openFileID = ''6d2b'', pos = 0,
      flags = [O_RDWR, S_IFCHR], vnodeName = ''/dev/pts/0''\<rparr>"

definition sample_init :: RawProcessInfo where
  "sample_init =
     \<lparr>namespaceID = ''ns-a'', globalPID = 4000, containerPID = 1, containerPPID = 0,
      containerPGID = 1, command = ''init'', files = []\<rparr>"

definition sample_namespace :: RawContainerInfo where
  "sample_namespace =
     [(''1'', sample_init),
      (''7'', \<lparr>namespaceID = ''ns-a'', globalPID = 4007, containerPID = 7, containerPPID = 1,
               containerPGID = 7, command = ''output'', files = [(0, shared_terminal)]\<rparr>),
      (''8'', \<lparr>namespaceID = ''ns-a'', globalPID = 4008, containerPID = 8, containerPPID = 7,
               containerPGID = 7, command = ''output'', files = [(0, shared_terminal)]\<rparr>)]"

definition sample_info :: ContainerInfo where
  "sample_info =
     \<lparr>processes =
        [\<lparr>pid = 7, ppid = 1, pgid = 7, process_command = ''output'',
          fds = [(0, \<lparr>fd_file = ''6d2b'', fd_closeOnExec = False\<rparr>)]\<rparr>,
         \<lparr>pid = 8, ppid = 7, pgid = 7, process_command = ''output'',
          fds = [(0, \<lparr>fd_file = ''6d2b'', fd_closeOnExec = False\<rparr>)]\<rparr>],
      openFiles =
        [(''6d2b'', \<lparr>position = 0, entry_flags = [O_RDWR, S_IFCHR], refcount = 2,
                    vnode = ''/dev/pts/0''\<rparr>)],
      vnodes = [(''/dev/pts/0'', \<lparr>name = ''/dev/pts/0'', vnode_refcount = 1\<rparr>)]\<rparr>"

text \<open>A namespace without an entry for container pid 1.\<close>

definition headless_namespace :: RawContainerInfo where
  "headless_namespace =
     [(''7'', \<lparr>namespaceID = ''ns-b'', globalPID = 5007, containerPID = 7, containerPPID = 1,
               containerPGID = 7, command = ''output'', files = [(0, shared_terminal)]\<rparr>)]"

text \<open>
  A namespace in which the init process and an exposed process hold records for the
  same open-file id with different offsets.
\<close>

definition init_conflict_namespace :: RawContainerInfo where
  "init_conflict_namespace =
     [(''1'', \<lparr>namespaceID = ''ns-c'', globalPID = 6000, containerPID = 1, containerPPID = 0,
               containerPGID = 1, command = ''init'',
               files = [(0, shared_terminal\<lparr>pos := 512\<rparr>)]\<rparr>),
      (''7'', \<lparr>namespaceID = ''ns-c'', globalPID = 6007, containerPID = 7, containerPPID = 1,
               containerPGID = 7, command = ''output'', files = [(0, shared_terminal)]\<rparr>)]"

definition init_conflict_info :: ContainerInfo where
  "init_conflict_info =
     \<lparr>processes =
        [\<lparr>pid = 7, ppid = 1, pgid = 7, process_command = ''output'',
          fds = [(0, \<lparr>fd_file = ''6d2b'', fd_closeOnExec = False\<rparr>)]\<rparr>],
      openFiles =
        [(''6d2b'', \<lparr>position = 0, entry_flags = [O_RDWR, S_IFCHR], refcount = 1,
                    vnode = ''/dev/pts/0''\<rparr>)],
      vnodes = [(''/dev/pts/0'', \<lparr>name = ''/dev/pts/0'', vnode_refcount = 1\<rparr>)]\<rparr>"

text \<open>
  A namespace in which two exposed processes hold records for the same open-file id
  with different vnodes.
\<close>

definition exposed_conflict_namespace :: RawContainerInfo where
  "exposed_conflict_namespace =
     [(''1'', \<lparr>namespaceID = ''ns-d'', globalPID = 7000, containerPID = 1, containerPPID = 0,
               containerPGID = 1, command = ''init'', files = []\<rparr>),
      (''7'', \<lparr>namespaceID = ''ns-d'', globalPID = 7007, containerPID = 7, containerPPID = 1,
               containerPGID = 7, command = ''output'', files = [(0, shared_terminal)]\<rparr>),
      (''8'', \<lparr>namespaceID = ''ns-d'', globalPID = 7008, containerPID = 8, containerPPID = 7,
               containerPGID = 7, command = ''output'',
               files = [(0, shared_terminal\<lparr>vnodeName := ''pipe:[116131]''\<rparr>)]\<rparr>)]"

section \<open>Validating a run request (getRunParams)\<close>

text \<open>
  The constants that getRunParams reads are declared outside the files at hand
  (\<^verbatim>\<open>SUPPORTED_VERSIONS\<close>, \<^verbatim>\<open>FLAG_WHITELIST\<close> and \<^verbatim>\<open>DEFAULT_VERSION\<close> in
  \<^verbatim>\<open>common/constants\<close>; the three maximum lengths and \<^verbatim>\<open>getFileContents\<close> in the
  \<^verbatim>\<open>db\<close> module). They are parameters of the model. \<open>getFileContents\<close> is the
  content of the file store at the time of the call: the bytes of a file, or nothing.
\<close>

record Config =
  SUPPORTED_VERSIONS :: "string list"
  FLAG_WHITELIST :: "string list"
  DEFAULT_VERSION :: string
  CFLAGS_MAX_LEN :: nat
  CODE_MAX_LEN :: nat
  ARGS_MAX_LEN :: nat
  getFileContents :: "string \<Rightarrow> string option"

text \<open>
  The value of the request's \<^verbatim>\<open>flags\<close> field, as far as the code reads it: a falsy
  value (the field is missing, \<^verbatim>\<open>null\<close>, an empty string, 0 or false); an array, of
  strings (an element that is not a string is in no list of strings, like a flag that is
  not whitelisted); or a truthy value that is not an array, of which the code reads only
  the \<^verbatim>\<open>length\<close> property: the length of a string such as \<^verbatim>\<open>"-O2"\<close>, the field
  of an object that has one, and no number otherwise.
\<close>

datatype flags_value = NoFlags | FlagsArray "string list" | NotAnArray "int option"

text \<open>
  The request, with the fields getRunParams and startContainer read. A field the client
  may leave out (or send as \<^verbatim>\<open>null\<close>) is an option; \<open>breakpoints\<close> is \<open>None\<close> when
  it is not an array. A language that is missing behaves like any unsupported one.
\<close>

record RunEventBody =
  language :: string
  req_flags :: flags_value
  code :: "string option"
  args :: "string option"
  includeFileId :: "string option"
  debug :: bool
  breakpoints :: "int list option"
  rows :: "int option"
  cols :: "int option"

datatype Compiler = gcc | gpp

record RunParams =
  compiler :: Compiler
  cflags :: string
  params_code :: string
  argsStr :: string
  params_includeFileId :: "string option"
  includeFileData :: "string option"
  params_debug :: bool
  params_breakpoints :: "int list"

subsection \<open>The string operations getRunParams uses\<close>

text \<open>\<^verbatim>\<open>toLowerCase\<close>, on the ASCII letters (the language names are ASCII).\<close>

definition toLowerCase :: "string \<Rightarrow> string" where
  "toLowerCase s =
     map (\<lambda>c. if 65 \<le> (of_char c :: nat) \<and> (of_char c :: nat) \<le> 90
                then char_of (of_char c + 32 :: nat) else c) s"

text \<open>\<^verbatim>\<open>Array.prototype.join\<close>.\<close>

fun join :: "string \<Rightarrow> string list \<Rightarrow> string" where
  "join sep [] = []"
| "join sep [x] = x"
| "join sep (x # y # ys) = x @ sep @ join sep (y # ys)"

text \<open>\<^verbatim>\<open>String.prototype.trim\<close>: white space is removed from both ends.\<close>

definition trim :: "string \<Rightarrow> string" where
  "trim s = rev (dropWhile isWhiteSpace (rev (dropWhile isWhiteSpace s)))"

text \<open>A string is truthy when it is not empty; \<^verbatim>\<open>x || ''\<close> for an optional string.\<close>

definition or_empty :: "string option \<Rightarrow> string" where
  "or_empty x = (case x of None \<Rightarrow> [] | Some s \<Rightarrow> s)"

subsection \<open>getRunParams\<close>

text \<open>The language after the substitution of the default.\<close>

definition effective_language :: "Config \<Rightarrow> RunEventBody \<Rightarrow> string" where
  "effective_language cfg request =
     (if language request \<in> set (SUPPORTED_VERSIONS cfg) then language request
      else DEFAULT_VERSION cfg)"

text \<open>\<^verbatim>\<open>Array.isArray(request.flags) ? request.flags : []\<close>.\<close>

definition requested_flags :: "RunEventBody \<Rightarrow> string list" where
  "requested_flags request = (case req_flags request of FlagsArray fs \<Rightarrow> fs | _ \<Rightarrow> [])"

text \<open>
  \<^verbatim>\<open>(request.flags || []).length\<close>: a number, or nothing when the value has no length
  that is a number.
\<close>

definition flags_length :: "RunEventBody \<Rightarrow> int option" where
  "flags_length request =
     (case req_flags request of
        NoFlags \<Rightarrow> Some 0
      | FlagsArray fs \<Rightarrow> Some (int (length fs))
      | NotAnArray len \<Rightarrow> len)"

definition suppliedCflags :: "Config \<Rightarrow> RunEventBody \<Rightarrow> string list" where
  "suppliedCflags cfg request =
     filter (\<lambda>flag. flag \<in> set (FLAG_WHITELIST cfg)) (requested_flags request)"

definition composed_cflags :: "Config \<Rightarrow> RunEventBody \<Rightarrow> string" where
  "composed_cflags cfg request =
     trim (''-std='' @ toLowerCase (effective_language cfg request) @ '' ''
           @ join '' '' (suppliedCflags cfg request))"

text \<open>
  The result is the pair of the warning signal (whether \<^verbatim>\<open>console.warn\<close> was called,
  which happens before any check: the strict comparison of the number of surviving flags
  with \<^verbatim>\<open>(request.flags || []).length\<close>) and the parameters or the error thrown.
\<close>

definition getRunParams :: "Config \<Rightarrow> RunEventBody \<Rightarrow> bool \<times> (error + RunParams)" where
  "getRunParams cfg request =
     (let lang = effective_language cfg request;
          compiler = (if lang \<in> set [''C99'', ''C11''] then gcc else gpp);
          supplied = suppliedCflags cfg request;
          warned = (Some (int (length supplied)) \<noteq> flags_length request);
          cflags = composed_cflags cfg request;
          code = or_empty (code request);
          argsStr = or_empty (args request);
          truthyId = (case includeFileId request of None \<Rightarrow> False | Some i \<Rightarrow> i \<noteq> []);
          includeFileData =
            (if truthyId then getFileContents cfg (the (includeFileId request)) else None);
          includeFileId = (if includeFileData = None then None else includeFileId request);
          breakpoints = (case breakpoints request of None \<Rightarrow> [] | Some bs \<Rightarrow> bs);
          debug = debug request
      in (warned,
          if CFLAGS_MAX_LEN cfg < length cflags
          then Inl (ClientValidationError ''Submitted cflags exceeds max length!'')
          else if CODE_MAX_LEN cfg < length code
          then Inl (ClientValidationError ''Submitted code exceeds max length!'')
          else if ARGS_MAX_LEN cfg < length argsStr
          then Inl (ClientValidationError ''Submitted args exceed max length!'')
          else if truthyId \<and> includeFileData = None
          then Inl (ClientValidationError ''includeFileId is invalid'')
          else if \<not> debug \<and> 0 < length breakpoints
          then Inl (ClientValidationError
                      ''Breakpoints are specified even though debugging is not enabled'')
          else Inr \<lparr>compiler = compiler, cflags = cflags, params_code = code,
                    argsStr = argsStr, params_includeFileId = includeFileId,
                    includeFileData = includeFileData, params_debug = debug,
                    params_breakpoints = breakpoints\<rparr>))"

section \<open>The session (SocketConnection)\<close>

text \<open>
  The container is an opaque capability; what the session knows of it is what it was
  constructed with.
\<close>

record Container =
  container_params :: RunParams
  container_rows :: int
  container_cols :: int

text \<open>
  The session's state: the container reference, the run id, and (state of the socket
  library) whether the socket is connected. The source address and user agent are fixed
  when the session is created.
\<close>

record SocketConnection =
  sourceIP :: string
  sourceUA :: string
  container :: "Container option"
  runId :: "int option"
  connected :: bool

text \<open>What the container reports when it exits.\<close>

record ContainerExitNotification =
  runtimeMs :: int
  exitStatus :: int
  signal :: "string option"
  exit_output :: string

text \<open>The events the server emits on the socket.\<close>

datatype emitted =
    Saved string
  | Exit int "string option"
  | CplaygroundError string

text \<open>
  What a handler does to the outside world, in order: console output, events emitted on
  the socket, disconnecting the socket, calls of the persistence module, constructing a
  container, and calls into the container.
\<close>

datatype action =
    Console string
  | SocketEmit emitted
  | SocketDisconnect
  | InsertProgram RunParams string string
  | CreateRun int string string
  | UpdateRun "int option" int int string
  | NewContainer Container
  | ContainerShutdown
  | ContainerDebugCommand

definition onSocketDisconnect :: "SocketConnection \<Rightarrow> SocketConnection \<times> action list" where
  "onSocketDisconnect s =
     (s, Console ''Client disconnected''
         # (case container s of None \<Rightarrow> [] | Some c \<Rightarrow> [ContainerShutdown]))"

text \<open>
  \<^verbatim>\<open>this.socket.disconnect()\<close> is a call into the socket library. It leaves the socket
  disconnected. Whether the library runs the session's \<^verbatim>\<open>'disconnect'\<close> listener
  (onSocketDisconnect) before the call returns is the library's affair, so it is a
  parameter: \<open>inline\<close> is true when it does, for a socket that was connected.
\<close>

definition socket_disconnect :: "bool \<Rightarrow> SocketConnection \<Rightarrow> SocketConnection \<times> action list" where
  "socket_disconnect inline s =
     (if inline \<and> connected s
      then (let (s', acts) = onSocketDisconnect (s\<lparr>connected := False\<rparr>)
            in (s', SocketDisconnect # acts))
      else (s\<lparr>connected := False\<rparr>, [SocketDisconnect]))"

text \<open>
  The socket library closing a connected socket because the client went away: it marks
  the socket disconnected and runs the session's \<^verbatim>\<open>'disconnect'\<close> listener, once.
  A socket that is already disconnected raises no further event.
\<close>

definition socket_onclose :: "SocketConnection \<Rightarrow> SocketConnection \<times> action list" where
  "socket_onclose s =
     (if connected s then onSocketDisconnect (s\<lparr>connected := False\<rparr>) else (s, []))"

text \<open>
  startContainer up to the call of \<^verbatim>\<open>db.insertProgram\<close>. The rest of the function runs
  in the callbacks of the promise that call returns, when the persistence module
  answers: they are the two functions after this one.
\<close>

definition startContainer ::
  "Config \<Rightarrow> bool \<Rightarrow> SocketConnection \<Rightarrow> RunEventBody \<Rightarrow> SocketConnection \<times> action list" where
  "startContainer cfg inline s request =
     (if container s \<noteq> None
      then (s, [Console ''Got run command even though we already have a container running''])
      else
        (case getRunParams cfg request of
           (warned, result) \<Rightarrow>
             let warning =
                   (if warned then [Console ''Warning: someone passed non-whitelisted flags!'']
                    else [])
             in (case result of
                   Inl e \<Rightarrow>
                     (let (s', acts) = socket_disconnect inline s
                      in (s', warning @ [Console ''Failed to get valid run params!'',
                                         Console ''(the error)''] @ acts))
                 | Inr params \<Rightarrow>
                     (s, warning @ [InsertProgram params (sourceIP s) (sourceUA s)]))))"

definition terminal_rows :: "RunEventBody \<Rightarrow> int" where
  "terminal_rows request = (case rows request of None \<Rightarrow> 24 | Some n \<Rightarrow> if n = 0 then 24 else n)"

definition terminal_cols :: "RunEventBody \<Rightarrow> int" where
  "terminal_cols request = (case cols request of None \<Rightarrow> 80 | Some n \<Rightarrow> if n = 0 then 80 else n)"

text \<open>The first callback: the program row (its id and alias) has been stored.\<close>

definition onProgramInserted ::
  "SocketConnection \<Rightarrow> int \<Rightarrow> string \<Rightarrow> SocketConnection \<times> action list" where
  "onProgramInserted s row_id row_alias =
     (s, [Console ''Program is at alias'', CreateRun row_id (sourceIP s) (sourceUA s)])"

text \<open>The second callback: the run has been logged; the container is constructed.\<close>

definition onRunCreated ::
  "SocketConnection \<Rightarrow> RunEventBody \<Rightarrow> RunParams \<Rightarrow> string \<Rightarrow> int
     \<Rightarrow> SocketConnection \<times> action list" where
  "onRunCreated s request params alias newRunId =
     (let c = \<lparr>container_params = params, container_rows = terminal_rows request,
               container_cols = terminal_cols request\<rparr>
      in (s\<lparr>runId := Some newRunId, container := Some c\<rparr>,
          [Console ''Run logged with ID'', SocketEmit (Saved alias), NewContainer c]))"

definition onContainerExit ::
  "bool \<Rightarrow> SocketConnection \<Rightarrow> ContainerExitNotification \<Rightarrow> SocketConnection \<times> action list" where
  "onContainerExit inline s data =
     (let (s', acts) =
            (if connected s
             then (let (s'', dis) = socket_disconnect inline s
                   in (s'', [Console ''Sending client exit info'',
                             SocketEmit (Exit (exitStatus data) (signal data)),
                             Console ''Closing socket''] @ dis))
             else (s, []))
      in (s'\<lparr>container := None\<rparr>,
          acts @ [UpdateRun (runId s') (runtimeMs data) (exitStatus data) (exit_output data)]))"

text \<open>
  A debug handler. \<open>executeCommand\<close> is the call into the container: it returns
  (\<open>None\<close>) or throws (\<open>Some e\<close>). The handler's result is \<open>Inl e\<close> when the
  exception \<open>e\<close> leaves the handler, and the new state and the actions otherwise.
\<close>

definition makeDebugHandler ::
  "('d \<Rightarrow> Container \<Rightarrow> error option) \<Rightarrow> SocketConnection \<Rightarrow> 'd
     \<Rightarrow> error + (SocketConnection \<times> action list)" where
  "makeDebugHandler executeCommand s data =
     (case container s of
        None \<Rightarrow> Inr (s, [SocketEmit (CplaygroundError ''No program is currently running.'')])
      | Some c \<Rightarrow>
          (case executeCommand data c of
             None \<Rightarrow> Inr (s, [ContainerDebugCommand])
           | Some e \<Rightarrow>
               (case e of
                  DebugStateError message \<Rightarrow>
                    Inr (s, [ContainerDebugCommand, SocketEmit (CplaygroundError message)])
                | _ \<Rightarrow> Inr (s, [ContainerDebugCommand]))))"

subsection \<open>Sequences of events\<close>

text \<open>
  The two events that end a run, in the order in which they reach the session: the
  client goes away, or the container reports its exit. socket.io runs the listeners of
  \<^verbatim>\<open>'disconnect'\<close> inside \<^verbatim>\<open>disconnect()\<close>, so the exit handler is taken with
  \<open>inline\<close> true.
\<close>

datatype session_event = ClientGone | ContainerExited ContainerExitNotification

definition handle :: "SocketConnection \<Rightarrow> session_event \<Rightarrow> SocketConnection \<times> action list" where
  "handle s ev =
     (case ev of ClientGone \<Rightarrow> socket_onclose s
               | ContainerExited data \<Rightarrow> onContainerExit True s data)"

fun handle_all :: "SocketConnection \<Rightarrow> session_event list \<Rightarrow> SocketConnection \<times> action list" where
  "handle_all s [] = (s, [])"
| "handle_all s (ev # evs) =
     (let (s', acts) = handle s ev;
          (s'', acts') = handle_all s' evs
      in (s'', acts @ acts'))"

subsection \<open>What the session claims count\<close>

definition shutdown_calls :: "action list \<Rightarrow> nat" where
  "shutdown_calls acts = length (filter (\<lambda>a. a = ContainerShutdown) acts)"

definition persists :: "action \<Rightarrow> bool" where
  "persists a = (case a of InsertProgram p ip ua \<Rightarrow> True | CreateRun i ip ua \<Rightarrow> True
                 | UpdateRun r t e out \<Rightarrow> True | _ \<Rightarrow> False)"

definition constructs :: "action \<Rightarrow> bool" where
  "constructs a = (case a of NewContainer c \<Rightarrow> True | _ \<Rightarrow> False)"

definition emits :: "action \<Rightarrow> bool" where
  "emits a = (case a of SocketEmit e \<Rightarrow> True | _ \<Rightarrow> False)"

text \<open>An include-file id counts as supplied when it is a non-empty string.\<close>

definition suppliedIncludeFileId :: "RunEventBody \<Rightarrow> string option" where
  "suppliedIncludeFileId request =
     (case includeFileId request of None \<Rightarrow> None | Some i \<Rightarrow> if i = [] then None else Some i)"

text \<open>
  The flags of the whitelist and the language names are tokens: not empty, and with no
  white space at the end.
\<close>

definition token :: "string \<Rightarrow> bool" where
  "token s = (s \<noteq> [] \<and> \<not> isWhiteSpace (last s))"

definition tokens_config :: "Config \<Rightarrow> bool" where
  "tokens_config cfg =
     (list_all token (FLAG_WHITELIST cfg) \<and> list_all token (SUPPORTED_VERSIONS cfg)
      \<and> token (DEFAULT_VERSION cfg))"

subsection \<open>A sample configuration, requests and sessions\<close>

definition sample_config :: Config where
  "sample_config =
     \<lparr>SUPPORTED_VERSIONS = [''C99'', ''C11'', ''C++11'', ''C++14'', ''C++17''],
      FLAG_WHITELIST = [''-O2'', ''-Wall'', ''-pthread''],
      DEFAULT_VERSION = ''C++17'',
      CFLAGS_MAX_LEN = 100,
      CODE_MAX_LEN = 20,
      ARGS_MAX_LEN = 10,
      getFileContents = (\<lambda>i. if i = ''file-1'' then Some ''#define X 1'' else None)\<rparr>"

definition sample_request :: RunEventBody where
  "sample_request =
     \<lparr>language = ''Rust'', req_flags = FlagsArray [''-O2'', ''-fplugin=x'', ''-Wall''],
      code = Some ''int main(){}'', args = None, includeFileId = Some ''file-1'',
      debug = True, breakpoints = Some [3], rows = Some 40, cols = None\<rparr>"

definition sample_params :: RunParams where
  "sample_params =
     \<lparr>compiler = gpp, cflags = ''-std=c++17 -O2 -Wall'', params_code = ''int main(){}'',
      argsStr = [], params_includeFileId = Some ''file-1'',
      includeFileData = Some ''#define X 1'', params_debug = True,
      params_breakpoints = [3]\<rparr>"

definition oversized_request :: RunEventBody where
  "oversized_request = sample_request\<lparr>code := Some ''int main(){return 0;}''\<rparr>"

definition idle_session :: SocketConnection where
  "idle_session =
     \<lparr>sourceIP = ''10.0.0.1'', sourceUA = ''agent'', container = None, runId = None,
      connected = True\<rparr>"

definition sample_container :: Container where
  "sample_container =
     \<lparr>container_params = sample_params, container_rows = 40, container_cols = 80\<rparr>"

definition running_session :: SocketConnection where
  "running_session = idle_session\<lparr>container := Some sample_container, runId := Some 12\<rparr>"

definition sample_exit :: ContainerExitNotification where
  "sample_exit = \<lparr>runtimeMs = 1500, exitStatus = 0, signal = None, exit_output = ''hello''\<rparr>"

text \<open>A request in a supported language.\<close>

definition c99_request :: RunEventBody where
  "c99_request = sample_request\<lparr>language := ''C99''\<rparr>"

definition c99_params :: RunParams where
  "c99_params = sample_params\<lparr>compiler := gcc, cflags := ''-std=c99 -O2 -Wall''\<rparr>"

text \<open>A request whose flags field is the string \<^verbatim>\<open>"-O2"\<close>, not an array.\<close>

definition string_flags_request :: RunEventBody where
  "string_flags_request = sample_request\<lparr>req_flags := NotAnArray (Some 3)\<rparr>"

text \<open>A second run request of the same client, for a taller terminal.\<close>

definition second_request :: RunEventBody where
  "second_request = sample_request\<lparr>rows := Some 50\<rparr>"

definition second_container :: Container where
  "second_container =
     \<lparr>container_params = sample_params, container_rows = 50, container_cols = 80\<rparr>"

section \<open>Properties of readFlags\<close>

lemma parseInt8_2: "ToInt32 (parseInt8 ''2'') = 2"
  by (simp add: parseInt8_def isWhiteSpace_def isOctalDigit_def digitValue_def oct_def nearest_double_def ToInt32_def)

lemma parseInt8_1: "ToInt32 (parseInt8 ''1'') = 1"
  by (simp add: parseInt8_def isWhiteSpace_def isOctalDigit_def digitValue_def oct_def nearest_double_def ToInt32_def)

lemma parseInt8_3: "ToInt32 (parseInt8 ''3'') = 3"
  by (simp add: parseInt8_def isWhiteSpace_def isOctalDigit_def digitValue_def oct_def nearest_double_def ToInt32_def)

lemma parseInt8_100002: "ToInt32 (parseInt8 ''100002'') = 32770"
  by (simp add: parseInt8_def isWhiteSpace_def isOctalDigit_def digitValue_def oct_def nearest_double_def ToInt32_def)

lemma matchingFlags_1: "matchingFlags 1 = [O_RDONLY, O_WRONLY]"
  by (simp add: matchingFlags_def FILE_FLAGS_def oct_def)

lemma matchingFlags_2: "matchingFlags 2 = [O_RDONLY, O_RDWR]"
  by (simp add: matchingFlags_def FILE_FLAGS_def oct_def)

lemma matchingFlags_3: "matchingFlags 3 = [O_RDONLY, O_WRONLY, O_RDWR]"
  by (simp add: matchingFlags_def FILE_FLAGS_def oct_def)

lemma matchingFlags_32770: "matchingFlags 32770 = [O_RDONLY, O_RDWR, S_IFREG]"
  by (simp add: matchingFlags_def FILE_FLAGS_def oct_def)

lemma matchingFlags_head:
  "\<exists>rest. matchingFlags w = O_RDONLY # rest \<and> O_RDONLY \<notin> set rest"
proof -
  let ?P = "\<lambda>(flag :: FileFlag, v). w AND of_nat v = of_nat v"
  have "O_RDONLY \<notin> set (map fst (filter ?P (tl FILE_FLAGS)))"
  proof
    assume "O_RDONLY \<in> set (map fst (filter ?P (tl FILE_FLAGS)))"
    then have "O_RDONLY \<in> fst ` set (tl FILE_FLAGS)" by auto
    then show False by (simp add: FILE_FLAGS_def)
  qed
  moreover have "matchingFlags w = O_RDONLY # map fst (filter ?P (tl FILE_FLAGS))"
    by (simp add: matchingFlags_def FILE_FLAGS_def oct_def)
  ultimately show ?thesis by blast
qed

lemma splice_head [simp]: "splice (x # xs) 0 (Suc 0) = xs"
  by (simp add: splice_def)

text \<open>
  C3, as the code has it. The octal string for \<^verbatim>\<open>0o2\<close> decodes to the read-write alias
  alone (neither the read-only nor the write-only alias), and the one for
  \<^verbatim>\<open>0o100002\<close> to the read-write and the regular-file aliases; the write-only alias is
  what \<^verbatim>\<open>0o1\<close> decodes to.
\<close>

theorem readFlags_octal_examples:
  "readFlags ''2'' = [O_RDWR] \<and> readFlags ''100002'' = [O_RDWR, S_IFREG]
   \<and> readFlags ''1'' = [O_WRONLY]"
  by (simp add: readFlags_def parseInt8_1 parseInt8_2 parseInt8_100002 matchingFlags_1 matchingFlags_2
      matchingFlags_32770 dropReadOnly_def splice_head)

text \<open>Decoding \<^verbatim>\<open>0o2\<close> does not yield the write-only alias.\<close>

theorem readFlags_0o2_counterexample:
  "\<not> (O_WRONLY \<in> set (readFlags ''2'') \<and> O_RDONLY \<notin> set (readFlags ''2''))"
  by (simp add: readFlags_def parseInt8_2 matchingFlags_2 dropReadOnly_def splice_head)

text \<open>
  C10. For every input string, the splice at the index of the read-only alias does what
  removing that alias if present does: the alias is always among the matched flags, at
  index 0 (so indexOf is never \<open>-1\<close>); when a write-mode alias is present the result is
  the matched flags without the read-only alias and with every other flag kept; and the
  result never holds the read-only alias together with a write-mode alias.
\<close>

theorem readFlags_splice_is_remove_if_present:
  "readFlags octalStr = readFlags_spec octalStr
   \<and> O_RDONLY \<in> set (matchingFlags (ToInt32 (parseInt8 octalStr)))
   \<and> indexOf (matchingFlags (ToInt32 (parseInt8 octalStr))) O_RDONLY = 0
   \<and> readFlags octalStr =
       (if O_WRONLY \<in> set (matchingFlags (ToInt32 (parseInt8 octalStr)))
           \<or> O_RDWR \<in> set (matchingFlags (ToInt32 (parseInt8 octalStr)))
        then filter (\<lambda>flag. flag \<noteq> O_RDONLY) (matchingFlags (ToInt32 (parseInt8 octalStr)))
        else matchingFlags (ToInt32 (parseInt8 octalStr)))
   \<and> \<not> (O_RDONLY \<in> set (readFlags octalStr)
          \<and> (O_WRONLY \<in> set (readFlags octalStr) \<or> O_RDWR \<in> set (readFlags octalStr)))"
proof -
  obtain rest where m: "matchingFlags (ToInt32 (parseInt8 octalStr)) = O_RDONLY # rest"
    and rest: "O_RDONLY \<notin> set rest"
    using matchingFlags_head by blast
  have f: "filter (\<lambda>flag. flag \<noteq> O_RDONLY) rest = rest"
    using rest by (intro filter_True) auto
  show ?thesis
    using rest by (auto simp add: readFlags_def readFlags_spec_def dropReadOnly_def dropReadOnly_spec_def m splice_head f)
qed

theorem readFlags_splice_is_remove_if_present_witness:
  "readFlags ''3'' = [O_WRONLY, O_RDWR] \<and> readFlags_spec ''3'' = [O_WRONLY, O_RDWR]
   \<and> indexOf (matchingFlags (ToInt32 (parseInt8 ''3''))) O_RDONLY = 0"
  using readFlags_splice_is_remove_if_present [of "''3''"]
  by (simp add: parseInt8_3 matchingFlags_3 readFlags_spec_def dropReadOnly_spec_def)

section \<open>Properties of the reconstructed tables\<close>

subsection \<open>The open-file table\<close>

lemma occurrences_Cons:
  "occurrences (f # fs) ident = (if openFileID f = ident then 1 else 0) + occurrences fs ident"
  by (simp add: occurrences_def)

lemma openFile_loop_errors:
  "populateOpenFileTable_loop fs tbl = Inl e \<Longrightarrow> \<exists>m. e = DebugDataError m"
  by (induction fs arbitrary: tbl) (auto simp: Let_def split: if_splits option.splits)

lemma openFile_loop_distinct:
  "populateOpenFileTable_loop fs tbl = Inr out \<Longrightarrow> distinct (map fst tbl) \<Longrightarrow>
   distinct (map fst out)"
proof (induction fs arbitrary: tbl)
  case Nil
  then show ?case by simp
next
  case (Cons f fs)
  then show ?case
    by (auto simp: Let_def distinct_update split: if_splits option.splits)
qed

lemma openFile_loop_refcount:
  "populateOpenFileTable_loop fs tbl = Inr out \<Longrightarrow>
   (\<forall>ident. map_of tbl ident = None \<longrightarrow> c ident = 0) \<Longrightarrow>
   (\<forall>ident e. map_of tbl ident = Some e \<longrightarrow> refcount e = c ident) \<Longrightarrow>
   (\<forall>ident. map_of out ident = None \<longrightarrow> c ident + occurrences fs ident = 0) \<and>
   (\<forall>ident e. map_of out ident = Some e \<longrightarrow> refcount e = c ident + occurrences fs ident)"
proof (induction fs arbitrary: tbl c)
  case Nil
  then show ?case by (simp add: occurrences_def)
next
  case (Cons f fs)
  let ?k = "openFileID f"
  let ?c' = "c(?k := c ?k + 1)"
  from Cons.prems(1) have nk: "?k \<notin> set Object_prototype_keys"
    by (auto simp: Let_def split: if_splits)
  have eq: "\<And>ident. ?c' ident + occurrences fs ident = c ident + occurrences (f # fs) ident"
    by (simp add: occurrences_Cons)
  show ?case
  proof (cases "map_of tbl ?k")
    case None
    let ?tbl' = "AList.update ?k \<lparr>position = pos f, entry_flags = flags f, refcount = 1, vnode = vnodeName f\<rparr> tbl"
    from Cons.prems(1) None nk have run: "populateOpenFileTable_loop fs ?tbl' = Inr out"
      by (simp add: Let_def)
    have c0: "c ?k = 0" using Cons.prems(2) None by simp
    have inv1: "\<forall>ident. map_of ?tbl' ident = None \<longrightarrow> ?c' ident = 0"
      using Cons.prems(2) by (simp add: update_conv')
    have inv2: "\<forall>ident e. map_of ?tbl' ident = Some e \<longrightarrow> refcount e = ?c' ident"
      using Cons.prems(3) c0 by (auto simp: update_conv')
    from Cons.IH [OF run inv1 inv2] show ?thesis
      unfolding eq .
  next
    case (Some existing)
    let ?tbl' = "AList.update ?k (existing\<lparr>refcount := refcount existing + 1\<rparr>) tbl"
    from Cons.prems(1) Some nk have run: "populateOpenFileTable_loop fs ?tbl' = Inr out"
      by (simp add: Let_def split: if_splits)
    have ck: "refcount existing = c ?k" using Cons.prems(3) Some by simp
    have inv1: "\<forall>ident. map_of ?tbl' ident = None \<longrightarrow> ?c' ident = 0"
      using Cons.prems(2) by (simp add: update_conv')
    have inv2: "\<forall>ident e. map_of ?tbl' ident = Some e \<longrightarrow> refcount e = ?c' ident"
      using Cons.prems(3) ck by (auto simp: update_conv')
    from Cons.IH [OF run inv1 inv2] show ?thesis
      unfolding eq .
  qed
qed

lemma populateOpenFileTable_distinct:
  "populateOpenFileTable fs = Inr out \<Longrightarrow> distinct (map fst out)"
  unfolding populateOpenFileTable_def by (erule openFile_loop_distinct) simp

lemma populateOpenFileTable_refcount:
  assumes "populateOpenFileTable fs = Inr out" and "(ident, e) \<in> set out"
  shows "refcount e = occurrences fs ident"
proof -
  have "map_of out ident = Some e"
    using assms populateOpenFileTable_distinct by fastforce
  moreover have "\<forall>ident e. map_of out ident = Some e \<longrightarrow> refcount e = 0 + occurrences fs ident"
    using openFile_loop_refcount [of fs "[]" out "\<lambda>_. 0"] assms(1)
    unfolding populateOpenFileTable_def by simp
  ultimately show ?thesis by simp
qed

subsection \<open>The descriptor tables\<close>

lemma update_fresh: "k \<notin> fst ` set al \<Longrightarrow> AList.update k v al = al @ [(k, v)]"
  by (induction al) auto

lemma fold_update_distinct:
  "distinct (map key xs) \<Longrightarrow> set (map key xs) \<inter> fst ` set acc = {} \<Longrightarrow>
   fold (\<lambda>x table. AList.update (key x) (val x) table) xs acc = acc @ map (\<lambda>x. (key x, val x)) xs"
proof (induction xs arbitrary: acc)
  case Nil
  then show ?case by simp
next
  case (Cons x xs)
  have fresh: "key x \<notin> fst ` set acc" using Cons.prems(2) by auto
  have "set (map key xs) \<inter> fst ` set (acc @ [(key x, val x)]) = {}"
    using Cons.prems by auto
  with Cons.IH [of "acc @ [(key x, val x)]"] Cons.prems(1) fresh
  show ?case by (simp add: update_fresh)
qed

lemma descriptor_refs_populate:
  assumes "\<forall>p \<in> set procs. distinct (map (\<lambda>(n, f). fd f) (files p))"
  shows "descriptor_refs (populateProcessTable procs) ident
         = occurrences (concat (map (\<lambda>p. map snd (files p)) procs)) ident"
  using assms
proof (induction procs)
  case Nil
  then show ?case by (simp add: descriptor_refs_def populateProcessTable_def occurrences_def)
next
  case (Cons p procs)
  have d: "distinct (map fd (map snd (files p)))"
    using Cons.prems by (simp add: case_prod_unfold comp_def)
  have tbl: "fold (\<lambda>f table. AList.update (fd f)
                      \<lparr>fd_file = openFileID f, fd_closeOnExec = closeOnExec f\<rparr> table)
                (map snd (files p)) []
        = map (\<lambda>f. (fd f, \<lparr>fd_file = openFileID f, fd_closeOnExec = closeOnExec f\<rparr>)) (map snd (files p))"
    using fold_update_distinct [of fd "map snd (files p)" "[]"
        "\<lambda>f. \<lparr>fd_file = openFileID f, fd_closeOnExec = closeOnExec f\<rparr>"] d
    by simp
  have one: "length (filter (\<lambda>(n, d). fd_file d = ident)
        (map (\<lambda>f. (fd f, \<lparr>fd_file = openFileID f, fd_closeOnExec = closeOnExec f\<rparr>)) (map snd (files p))))
      = occurrences (map snd (files p)) ident"
    by (simp add: occurrences_def filter_map comp_def)
  have IH: "descriptor_refs (populateProcessTable procs) ident
         = occurrences (concat (map (\<lambda>p. map snd (files p)) procs)) ident"
    using Cons by simp
  have app: "\<And>xs ys. occurrences (xs @ ys) ident = occurrences xs ident + occurrences ys ident"
    by (simp add: occurrences_def)
  show ?case
    using IH one tbl
    by (simp add: descriptor_refs_def populateProcessTable_def app)
qed

subsection \<open>File tables as loadRawProcessInfo builds them\<close>

lemma set_update_subset: "set (AList.update k v al) \<subseteq> insert (k, v) (set al)"
  by (induction al) auto

lemma keyed_by_fd_empty: "files p = [] \<Longrightarrow> keyed_by_fd p"
  by (simp add: keyed_by_fd_def)

lemma keyed_by_fd_storeFile:
  assumes "keyed_by_fd p"
  shows "keyed_by_fd (storeFile p f)"
proof -
  have d: "distinct (map fst (AList.update (fd f) f (files p)))"
    using assms by (simp add: keyed_by_fd_def distinct_update)
  have "\<forall>x \<in> set (AList.update (fd f) f (files p)). fst x = fd (snd x)"
  proof
    fix x assume "x \<in> set (AList.update (fd f) f (files p))"
    with set_update_subset [of "fd f" f "files p"]
    have "x = (fd f, f) \<or> x \<in> set (files p)" by auto
    then show "fst x = fd (snd x)"
      using assms by (auto simp: keyed_by_fd_def list_all_iff)
  qed
  with d show ?thesis
    by (simp add: keyed_by_fd_def storeFile_def list_all_iff case_prod_unfold)
qed

lemma keyed_by_fd_fold:
  "keyed_by_fd p \<Longrightarrow> keyed_by_fd (fold (\<lambda>f currProcess. storeFile currProcess f) fs p)"
  by (induction fs arbitrary: p) (simp_all add: keyed_by_fd_storeFile)

lemma keyed_by_fd_distinct:
  assumes "keyed_by_fd p"
  shows "distinct (map (\<lambda>(n, f). fd f) (files p))"
proof -
  have eq: "map (\<lambda>(n, f). fd f) (files p) = map fst (files p)"
    using assms by (auto simp: keyed_by_fd_def list_all_iff)
  have "distinct (map fst (files p))"
    using assms by (simp add: keyed_by_fd_def)
  then show ?thesis unfolding eq .
qed

lemma descriptors_distinct_keyed:
  "list_all (\<lambda>(k, p). keyed_by_fd p) raw \<Longrightarrow> descriptors_distinct raw"
  by (auto simp: descriptors_distinct_def list_all_iff keyed_by_fd_distinct)


lemma file_data_entry [simp]:
  "without_refcount \<lparr>position = pos f, entry_flags = flags f, refcount = n, vnode = vnodeName f\<rparr> = file_data f"
  by (simp add: without_refcount_def file_data_def)

lemma without_refcount_update [simp]:
  "without_refcount (e\<lparr>refcount := n\<rparr>) = without_refcount e"
  by (simp add: without_refcount_def)

lemma without_refcount_vnode: "without_refcount e = file_data f \<Longrightarrow> vnode e = vnodeName f"
  by (simp add: without_refcount_def file_data_def)

lemma conflicting_iff:
  "conflicting fs \<longleftrightarrow>
     (\<exists>f \<in> set fs. \<exists>g \<in> set fs. openFileID f = openFileID g \<and> file_data f \<noteq> file_data g)"
  by (simp add: conflicting_def list_ex_iff)

text \<open>The entries of the open-file table come from the records.\<close>
lemma openFile_loop_entries:
  "populateOpenFileTable_loop fs tbl = Inr out \<Longrightarrow>
   (\<forall>k e. map_of tbl k = Some e \<longrightarrow> (\<exists>e'. map_of out k = Some e' \<and> without_refcount e' = without_refcount e)) \<and>
   (\<forall>f \<in> set fs. \<exists>e. map_of out (openFileID f) = Some e \<and> without_refcount e = file_data f) \<and>
   (\<forall>k e. map_of out k = Some e \<longrightarrow> map_of tbl k = None \<longrightarrow> (\<exists>f \<in> set fs. openFileID f = k \<and> vnode e = vnodeName f))"
proof (induction fs arbitrary: tbl)
  case Nil
  then show ?case by simp
next
  case (Cons f fs)
  let ?k = "openFileID f"
  let ?entry = "\<lparr>position = pos f, entry_flags = flags f, refcount = 1, vnode = vnodeName f\<rparr>"
  from Cons.prems(1) have nk: "?k \<notin> set Object_prototype_keys"
    by (auto simp: Let_def split: if_splits)
  show ?case
  proof (cases "map_of tbl ?k")
    case None
    let ?tbl' = "AList.update ?k ?entry tbl"
    from Cons.prems(1) None nk have run: "populateOpenFileTable_loop fs ?tbl' = Inr out"
      by (simp add: Let_def)
    note IH = Cons.IH [OF run]
    have m: "map_of ?tbl' = (map_of tbl)(?k \<mapsto> ?entry)" by (simp add: update_conv')
    from IH have A: "\<forall>k e. map_of ?tbl' k = Some e \<longrightarrow> (\<exists>e'. map_of out k = Some e' \<and> without_refcount e' = without_refcount e)"
      and B: "\<forall>f \<in> set fs. \<exists>e. map_of out (openFileID f) = Some e \<and> without_refcount e = file_data f"
      and C: "\<forall>k e. map_of out k = Some e \<longrightarrow> map_of ?tbl' k = None \<longrightarrow> (\<exists>f \<in> set fs. openFileID f = k \<and> vnode e = vnodeName f)"
      by blast+
    have "map_of ?tbl' ?k = Some ?entry" by (simp add: update_conv')
    with A have k: "\<exists>e'. map_of out ?k = Some e' \<and> without_refcount e' = without_refcount ?entry"
      by blast
    have 1: "\<forall>k e. map_of tbl k = Some e \<longrightarrow> (\<exists>e'. map_of out k = Some e' \<and> without_refcount e' = without_refcount e)"
    proof (intro allI impI)
      fix k e assume t: "map_of tbl k = Some e"
      with None have "k \<noteq> ?k" by auto
      with t have "map_of ?tbl' k = Some e" by (simp add: update_conv')
      with A show "\<exists>e'. map_of out k = Some e' \<and> without_refcount e' = without_refcount e" by blast
    qed
    have 2: "\<forall>g \<in> set (f # fs). \<exists>e. map_of out (openFileID g) = Some e \<and> without_refcount e = file_data g"
      using B k by simp
    have 3: "\<forall>k e. map_of out k = Some e \<longrightarrow> map_of tbl k = None \<longrightarrow> (\<exists>g \<in> set (f # fs). openFileID g = k \<and> vnode e = vnodeName g)"
    proof (intro allI impI)
      fix k e assume o: "map_of out k = Some e" and t: "map_of tbl k = None"
      show "\<exists>g \<in> set (f # fs). openFileID g = k \<and> vnode e = vnodeName g"
      proof (cases "k = ?k")
        case True
        with k o have "without_refcount e = without_refcount ?entry" by simp
        then have "vnode e = vnodeName f" by (simp add: without_refcount_vnode)
        with True show ?thesis by simp
      next
        case False
        with t have "map_of ?tbl' k = None" by (simp add: update_conv')
        with C o show ?thesis by auto
      qed
    qed
    from 1 2 3 show ?thesis by blast
  next
    case (Some existing)
    let ?tbl' = "AList.update ?k (existing\<lparr>refcount := refcount existing + 1\<rparr>) tbl"
    from Cons.prems(1) Some nk have run: "populateOpenFileTable_loop fs ?tbl' = Inr out"
      and same: "without_refcount ?entry = without_refcount existing"
      by (simp_all add: Let_def deepCompare_def split: if_splits)
    note IH = Cons.IH [OF run]
    have m: "map_of ?tbl' = (map_of tbl)(?k \<mapsto> existing\<lparr>refcount := refcount existing + 1\<rparr>)"
      by (simp add: update_conv')
    from IH have A: "\<forall>k e. map_of ?tbl' k = Some e \<longrightarrow> (\<exists>e'. map_of out k = Some e' \<and> without_refcount e' = without_refcount e)"
      and B: "\<forall>f \<in> set fs. \<exists>e. map_of out (openFileID f) = Some e \<and> without_refcount e = file_data f"
      and C: "\<forall>k e. map_of out k = Some e \<longrightarrow> map_of ?tbl' k = None \<longrightarrow> (\<exists>f \<in> set fs. openFileID f = k \<and> vnode e = vnodeName f)"
      by blast+
    have wr: "without_refcount (existing\<lparr>refcount := refcount existing + 1\<rparr>) = without_refcount existing"
      by simp
    have "map_of ?tbl' ?k = Some (existing\<lparr>refcount := refcount existing + 1\<rparr>)" by (simp add: update_conv')
    with A have "\<exists>e'. map_of out ?k = Some e' \<and> without_refcount e' = without_refcount (existing\<lparr>refcount := refcount existing + 1\<rparr>)"
      by blast
    with wr have k: "\<exists>e'. map_of out ?k = Some e' \<and> without_refcount e' = without_refcount existing"
      by simp
    have 1: "\<forall>k e. map_of tbl k = Some e \<longrightarrow> (\<exists>e'. map_of out k = Some e' \<and> without_refcount e' = without_refcount e)"
    proof (intro allI impI)
      fix k e assume t: "map_of tbl k = Some e"
      show "\<exists>e'. map_of out k = Some e' \<and> without_refcount e' = without_refcount e"
      proof (cases "k = ?k")
        case True
        with t Some k show ?thesis by simp
      next
        case False
        with t have "map_of ?tbl' k = Some e" by (simp add: update_conv')
        with A show ?thesis by blast
      qed
    qed
    have 2: "\<forall>g \<in> set (f # fs). \<exists>e. map_of out (openFileID g) = Some e \<and> without_refcount e = file_data g"
      using B k same by simp
    have 3: "\<forall>k e. map_of out k = Some e \<longrightarrow> map_of tbl k = None \<longrightarrow> (\<exists>g \<in> set (f # fs). openFileID g = k \<and> vnode e = vnodeName g)"
    proof (intro allI impI)
      fix k e assume o: "map_of out k = Some e" and t: "map_of tbl k = None"
      from t Some have "k \<noteq> ?k" by auto
      with t have "map_of ?tbl' k = None" by (simp add: update_conv')
      with C o show "\<exists>g \<in> set (f # fs). openFileID g = k \<and> vnode e = vnodeName g" by auto
    qed
    from 1 2 3 show ?thesis by blast
  qed
qed

lemma conflicting_fails:
  assumes "conflicting fs"
  shows "\<exists>m. populateOpenFileTable fs = Inl (DebugDataError m)"
proof (cases "populateOpenFileTable fs")
  case (Inl e)
  then show ?thesis using openFile_loop_errors [of fs "[]" e]
    by (simp add: populateOpenFileTable_def)
next
  case (Inr out)
  then have B: "\<forall>f \<in> set fs. \<exists>e. map_of out (openFileID f) = Some e \<and> without_refcount e = file_data f"
    using openFile_loop_entries [of fs "[]" out] by (simp add: populateOpenFileTable_def)
  from assms obtain f g where f: "f \<in> set fs" and g: "g \<in> set fs"
    and k: "openFileID f = openFileID g"
    and d: "file_data f \<noteq> file_data g"
    by (auto simp: conflicting_iff)
  from B f obtain e where e: "map_of out (openFileID f) = Some e" "without_refcount e = file_data f"
    by blast
  from B g obtain e' where e': "map_of out (openFileID g) = Some e'" "without_refcount e' = file_data g"
    by blast
  from e e' k have "file_data f = file_data g"
    by simp
  with d show ?thesis by simp
qed

lemma conflicting_mono:
  assumes "conflicting fs"
  shows "conflicting (f # fs)"
proof -
  from assms obtain x y where x: "x \<in> set fs" and y: "y \<in> set fs"
    and k: "openFileID x = openFileID y" and d: "file_data x \<noteq> file_data y"
    unfolding conflicting_iff by blast
  from x y have "x \<in> set (f # fs)" "y \<in> set (f # fs)" by simp_all
  with k d show ?thesis unfolding conflicting_iff by blast
qed

lemma conflicting_Cons: "\<not> conflicting (f # fs) \<Longrightarrow> \<not> conflicting fs"
  using conflicting_mono by blast

lemma conflicting_head:
  "\<not> conflicting (f # fs) \<Longrightarrow> g \<in> set fs \<Longrightarrow> openFileID g = openFileID f \<Longrightarrow>
   file_data g = file_data f"
proof (rule ccontr)
  assume a: "\<not> conflicting (f # fs)" "g \<in> set fs" "openFileID g = openFileID f"
    and d: "file_data g \<noteq> file_data f"
  have "\<exists>x \<in> set (f # fs). \<exists>y \<in> set (f # fs). openFileID x = openFileID y \<and> file_data x \<noteq> file_data y"
  proof (intro bexI conjI)
    show "openFileID g = openFileID f" by (rule a(3))
    show "file_data g \<noteq> file_data f" by (rule d)
    show "f \<in> set (f # fs)" by simp
    show "g \<in> set (f # fs)" using a(2) by simp
  qed
  with a(1) show False unfolding conflicting_iff by blast
qed

lemma openFile_loop_success:
  "\<forall>f \<in> set fs. openFileID f \<notin> set Object_prototype_keys \<Longrightarrow>
   \<not> conflicting fs \<Longrightarrow>
   \<forall>f \<in> set fs. \<forall>e. map_of tbl (openFileID f) = Some e \<longrightarrow> without_refcount e = file_data f \<Longrightarrow>
   \<exists>out. populateOpenFileTable_loop fs tbl = Inr out"
proof (induction fs arbitrary: tbl)
  case Nil
  then show ?case by simp
next
  case (Cons f fs)
  let ?k = "openFileID f"
  let ?entry = "\<lparr>position = pos f, entry_flags = flags f, refcount = 1, vnode = vnodeName f\<rparr>"
  have nk: "?k \<notin> set Object_prototype_keys" using Cons.prems(1) by simp
  have nks: "\<forall>f \<in> set fs. openFileID f \<notin> set Object_prototype_keys" using Cons.prems(1) by simp
  have nc: "\<not> conflicting fs" using Cons.prems(2) by (rule conflicting_Cons)
  show ?case
  proof (cases "map_of tbl ?k")
    case None
    let ?tbl' = "AList.update ?k ?entry tbl"
    have inv: "\<forall>g \<in> set fs. \<forall>e. map_of ?tbl' (openFileID g) = Some e \<longrightarrow> without_refcount e = file_data g"
    proof (intro ballI allI impI)
      fix g e assume g: "g \<in> set fs" and e: "map_of ?tbl' (openFileID g) = Some e"
      show "without_refcount e = file_data g"
      proof (cases "openFileID g = ?k")
        case True
        with e have "e = ?entry" by (simp add: update_conv')
        moreover have "file_data g = file_data f"
          using conflicting_head [OF Cons.prems(2) g True] .
        ultimately show ?thesis by simp
      next
        case False
        with e have "map_of tbl (openFileID g) = Some e" by (simp add: update_conv')
        with Cons.prems(3) g show ?thesis by simp
      qed
    qed
    from Cons.IH [OF nks nc inv] obtain out where "populateOpenFileTable_loop fs ?tbl' = Inr out"
      by blast
    with None nk show ?thesis by (simp add: Let_def)
  next
    case (Some existing)
    let ?tbl' = "AList.update ?k (existing\<lparr>refcount := refcount existing + 1\<rparr>) tbl"
    have ex: "without_refcount existing = file_data f"
      using Cons.prems(3) Some by simp
    have inv: "\<forall>g \<in> set fs. \<forall>e. map_of ?tbl' (openFileID g) = Some e \<longrightarrow> without_refcount e = file_data g"
    proof (intro ballI allI impI)
      fix g e assume g: "g \<in> set fs" and e: "map_of ?tbl' (openFileID g) = Some e"
      show "without_refcount e = file_data g"
      proof (cases "openFileID g = ?k")
        case True
        with e have "e = existing\<lparr>refcount := refcount existing + 1\<rparr>" by (simp add: update_conv')
        moreover have "file_data g = file_data f"
          using conflicting_head [OF Cons.prems(2) g True] .
        ultimately show ?thesis using ex by simp
      next
        case False
        with e have "map_of tbl (openFileID g) = Some e" by (simp add: update_conv')
        with Cons.prems(3) g show ?thesis by simp
      qed
    qed
    from Cons.IH [OF nks nc inv] obtain out where "populateOpenFileTable_loop fs ?tbl' = Inr out"
      by blast
    with Some nk ex show ?thesis by (simp add: Let_def deepCompare_def)
  qed
qed

lemma openFile_loop_inherited:
  "\<exists>f \<in> set fs. openFileID f \<in> set Object_prototype_keys \<Longrightarrow>
   \<exists>e. populateOpenFileTable_loop fs tbl = Inl e"
proof (induction fs arbitrary: tbl)
  case Nil
  then show ?case by simp
next
  case (Cons f fs)
  show ?case
  proof (cases "openFileID f \<in> set Object_prototype_keys")
    case True
    then show ?thesis by (simp add: Let_def)
  next
    case False
    with Cons.prems have "\<exists>f \<in> set fs. openFileID f \<in> set Object_prototype_keys" by simp
    from Cons.IH [OF this] False show ?thesis
      by (simp add: Let_def split: option.splits)
  qed
qed

subsection \<open>The vnode table\<close>

lemma vnode_entries_errors:
  "populateVnodeTable_entries fs tbl = Inl e \<Longrightarrow> \<exists>m. e = DebugDataError m"
  by (induction fs arbitrary: tbl) (auto simp: Let_def split: if_splits option.splits)

lemma vnode_entries_distinct:
  "populateVnodeTable_entries fs tbl = Inr out \<Longrightarrow> distinct (map fst tbl) \<Longrightarrow>
   distinct (map fst out)"
  by (induction fs arbitrary: tbl)
     (auto simp: Let_def distinct_update split: if_splits option.splits)

lemma vnode_entries_zero:
  "populateVnodeTable_entries fs tbl = Inr out \<Longrightarrow>
   \<forall>v e. map_of tbl v = Some e \<longrightarrow> vnode_refcount e = 0 \<Longrightarrow>
   \<forall>v e. map_of out v = Some e \<longrightarrow> vnode_refcount e = 0"
proof (induction fs arbitrary: tbl)
  case Nil
  then show ?case by simp
next
  case (Cons f fs)
  show ?case
  proof (cases "map_of tbl (vnodeName f)")
    case None
    let ?tbl' = "AList.update (vnodeName f) \<lparr>name = vnodeName f, vnode_refcount = 0\<rparr> tbl"
    from Cons.prems(1) None have run: "populateVnodeTable_entries fs ?tbl' = Inr out"
      by (simp add: Let_def split: if_splits)
    have "\<forall>v e. map_of ?tbl' v = Some e \<longrightarrow> vnode_refcount e = 0"
      using Cons.prems(2) by (auto simp: update_conv')
    from Cons.IH [OF run this] show ?thesis .
  next
    case (Some existing)
    from Cons.prems(1) Some have run: "populateVnodeTable_entries fs tbl = Inr out"
      by (simp add: Let_def split: if_splits)
    from Cons.IH [OF run Cons.prems(2)] show ?thesis .
  qed
qed

lemma vnode_entries_dom:
  "populateVnodeTable_entries fs tbl = Inr out \<Longrightarrow>
   (\<forall>f \<in> set fs. map_of out (vnodeName f) \<noteq> None) \<and>
   (\<forall>v. map_of tbl v \<noteq> None \<longrightarrow> map_of out v \<noteq> None)"
proof (induction fs arbitrary: tbl)
  case Nil
  then show ?case by simp
next
  case (Cons f fs)
  show ?case
  proof (cases "map_of tbl (vnodeName f)")
    case None
    let ?tbl' = "AList.update (vnodeName f) \<lparr>name = vnodeName f, vnode_refcount = 0\<rparr> tbl"
    from Cons.prems(1) None have run: "populateVnodeTable_entries fs ?tbl' = Inr out"
      by (simp add: Let_def split: if_splits)
    from Cons.IH [OF run] have A: "\<forall>f \<in> set fs. map_of out (vnodeName f) \<noteq> None"
      and B: "\<forall>v. map_of ?tbl' v \<noteq> None \<longrightarrow> map_of out v \<noteq> None" by blast+
    have "map_of ?tbl' (vnodeName f) \<noteq> None" by (simp add: update_conv')
    with B have "map_of out (vnodeName f) \<noteq> None" by blast
    moreover have "\<forall>v. map_of tbl v \<noteq> None \<longrightarrow> map_of out v \<noteq> None"
      using B by (simp add: update_conv')
    ultimately show ?thesis using A by simp
  next
    case (Some existing)
    from Cons.prems(1) Some have run: "populateVnodeTable_entries fs tbl = Inr out"
      by (simp add: Let_def split: if_splits)
    from Cons.IH [OF run] Some show ?thesis by auto
  qed
qed

lemma vnode_entries_success:
  "\<forall>f \<in> set fs. vnodeName f \<notin> set Object_prototype_keys \<Longrightarrow>
   \<forall>v e. map_of tbl v = Some e \<longrightarrow> e = \<lparr>name = v, vnode_refcount = 0\<rparr> \<Longrightarrow>
   \<exists>out. populateVnodeTable_entries fs tbl = Inr out"
proof (induction fs arbitrary: tbl)
  case Nil
  then show ?case by simp
next
  case (Cons f fs)
  have nks: "\<forall>f \<in> set fs. vnodeName f \<notin> set Object_prototype_keys" using Cons.prems(1) by simp
  have nk: "vnodeName f \<notin> set Object_prototype_keys" using Cons.prems(1) by simp
  show ?case
  proof (cases "map_of tbl (vnodeName f)")
    case None
    let ?tbl' = "AList.update (vnodeName f) \<lparr>name = vnodeName f, vnode_refcount = 0\<rparr> tbl"
    have "\<forall>v e. map_of ?tbl' v = Some e \<longrightarrow> e = \<lparr>name = v, vnode_refcount = 0\<rparr>"
      using Cons.prems(2) by (auto simp: update_conv')
    from Cons.IH [OF nks this] None nk show ?thesis by (simp add: Let_def)
  next
    case (Some existing)
    then have "existing = \<lparr>name = vnodeName f, vnode_refcount = 0\<rparr>" using Cons.prems(2) by simp
    with Cons.IH [OF nks Cons.prems(2)] Some nk show ?thesis
      by (simp add: Let_def deepCompare_def)
  qed
qed

lemma vnode_entries_inherited:
  "\<exists>f \<in> set fs. vnodeName f \<in> set Object_prototype_keys \<Longrightarrow>
   \<exists>e. populateVnodeTable_entries fs tbl = Inl e"
proof (induction fs arbitrary: tbl)
  case Nil
  then show ?case by simp
next
  case (Cons f fs)
  show ?case
  proof (cases "vnodeName f \<in> set Object_prototype_keys")
    case True
    then show ?thesis by (simp add: Let_def)
  next
    case False
    with Cons.prems have "\<exists>f \<in> set fs. vnodeName f \<in> set Object_prototype_keys" by simp
    from Cons.IH [OF this] False show ?thesis
      by (simp add: Let_def split: option.splits)
  qed
qed

lemma vnode_refcounts_distinct:
  "populateVnodeTable_refcounts es tbl = Inr out \<Longrightarrow> distinct (map fst tbl) \<Longrightarrow>
   distinct (map fst out)"
  by (induction es arbitrary: tbl) (auto simp: distinct_update split: option.splits)

lemma vnode_refcounts_count:
  "populateVnodeTable_refcounts es tbl = Inr out \<Longrightarrow>
   \<forall>v e. map_of out v = Some e \<longrightarrow>
     (\<exists>e0. map_of tbl v = Some e0 \<and>
       vnode_refcount e = vnode_refcount e0 + length (filter (\<lambda>openFile. vnode openFile = v) es))"
proof (induction es arbitrary: tbl)
  case Nil
  then show ?case by simp
next
  case (Cons x es)
  from Cons.prems obtain v0 where v0: "map_of tbl (vnode x) = Some v0"
    by (auto split: option.splits)
  let ?tbl' = "AList.update (vnode x) (v0\<lparr>vnode_refcount := vnode_refcount v0 + 1\<rparr>) tbl"
  from Cons.prems v0 have run: "populateVnodeTable_refcounts es ?tbl' = Inr out" by simp
  note IH = Cons.IH [OF run]
  show ?case
  proof (intro allI impI)
    fix v e assume "map_of out v = Some e"
    with IH obtain e1 where e1: "map_of ?tbl' v = Some e1"
      and c: "vnode_refcount e = vnode_refcount e1 + length (filter (\<lambda>openFile. vnode openFile = v) es)"
      by blast
    show "\<exists>e0. map_of tbl v = Some e0 \<and>
       vnode_refcount e = vnode_refcount e0 + length (filter (\<lambda>openFile. vnode openFile = v) (x # es))"
    proof (cases "v = vnode x")
      case True
      with e1 have "e1 = v0\<lparr>vnode_refcount := vnode_refcount v0 + 1\<rparr>" by (simp add: update_conv')
      with c True v0 show ?thesis by simp
    next
      case False
      with e1 have "map_of tbl v = Some e1" by (simp add: update_conv')
      with c False show ?thesis by auto
    qed
  qed
qed

lemma vnode_refcounts_success:
  "\<forall>x \<in> set es. map_of tbl (vnode x) \<noteq> None \<Longrightarrow>
   \<exists>out. populateVnodeTable_refcounts es tbl = Inr out"
proof (induction es arbitrary: tbl)
  case Nil
  then show ?case by simp
next
  case (Cons x es)
  from Cons.prems obtain v0 where v0: "map_of tbl (vnode x) = Some v0" by auto
  let ?tbl' = "AList.update (vnode x) (v0\<lparr>vnode_refcount := vnode_refcount v0 + 1\<rparr>) tbl"
  have "\<forall>y \<in> set es. map_of ?tbl' (vnode y) \<noteq> None"
    using Cons.prems by (simp add: update_conv')
  from Cons.IH [OF this] v0 show ?case by simp
qed


subsection \<open>cleanContainerData\<close>

lemma cleanContainerData_Inr:
  assumes "cleanContainerData raw = Inr (g, info)"
  shows "\<exists>init tbl vn. map_of raw ''1'' = Some init \<and> g = globalPID init
     \<and> populateOpenFileTable (exposed_files raw) = Inr tbl
     \<and> populateVnodeTable (exposed_files raw) tbl = Inr vn
     \<and> info = \<lparr>processes = populateProcessTable (filter (\<lambda>p. containerPID p > 1) (map snd raw)),
                openFiles = tbl, vnodes = vn\<rparr>"
  using assms
  by (auto simp: cleanContainerData_def exposed_files_def Let_def split: option.splits sum.splits)

lemma populateVnodeTable_refcount:
  assumes "populateVnodeTable fs tbl = Inr vn"
  shows "distinct (map fst vn)"
    and "(v, e) \<in> set vn \<Longrightarrow> vnode_refcount e = openFile_refs tbl v"
proof -
  from assms obtain t0 where t0: "populateVnodeTable_entries fs [] = Inr t0"
    and run: "populateVnodeTable_refcounts (map snd tbl) t0 = Inr vn"
    by (auto simp: populateVnodeTable_def split: sum.splits)
  have d0: "distinct (map fst t0)" using vnode_entries_distinct [OF t0] by simp
  show d: "distinct (map fst vn)" using vnode_refcounts_distinct [OF run d0] .
  have z: "\<forall>v e. map_of t0 v = Some e \<longrightarrow> vnode_refcount e = 0"
    using vnode_entries_zero [OF t0] by simp
  assume "(v, e) \<in> set vn"
  with d have "map_of vn v = Some e" by simp
  with vnode_refcounts_count [OF run] obtain e0 where "map_of t0 v = Some e0"
    and c: "vnode_refcount e = vnode_refcount e0 + length (filter (\<lambda>openFile. vnode openFile = v) (map snd tbl))"
    by blast
  with z have "vnode_refcount e = length (filter (\<lambda>openFile. vnode openFile = v) (map snd tbl))"
    by simp
  also have "\<dots> = openFile_refs tbl v"
    by (simp add: openFile_refs_def filter_map comp_def case_prod_unfold)
  finally show "vnode_refcount e = openFile_refs tbl v" .
qed

lemma sample_namespace_reconstructs:
  "cleanContainerData sample_namespace = Inr (4000, sample_info)"
  by (simp add: cleanContainerData_def sample_namespace_def sample_init_def sample_info_def
      shared_terminal_def populateOpenFileTable_def populateVnodeTable_def
      populateProcessTable_def Object_prototype_keys_def deepCompare_def without_refcount_def
      Let_def)

text \<open>
  C1. In a namespace that reconstructs, the reference count of every open-file entry is
  the number of descriptor-table entries of the exposed processes that name it, and the
  reference count of every vnode entry is the number of open-file entries that name it.
\<close>

theorem reference_counts:
  assumes "cleanContainerData raw = Inr (g, info)" and "descriptors_distinct raw"
  shows "(\<forall>(ident, e) \<in> set (openFiles info). refcount e = descriptor_refs (processes info) ident)
       \<and> (\<forall>(v, e) \<in> set (vnodes info). vnode_refcount e = openFile_refs (openFiles info) v)
       \<and> distinct (map fst (openFiles info)) \<and> distinct (map fst (vnodes info))"
proof -
  let ?procs = "filter (\<lambda>p. containerPID p > 1) (map snd raw)"
  from cleanContainerData_Inr [OF assms(1)] obtain tbl vn
    where tbl: "populateOpenFileTable (exposed_files raw) = Inr tbl"
      and vn: "populateVnodeTable (exposed_files raw) tbl = Inr vn"
      and info: "info = \<lparr>processes = populateProcessTable ?procs, openFiles = tbl, vnodes = vn\<rparr>"
    by blast
  have dd: "\<forall>p \<in> set ?procs. distinct (map (\<lambda>(n, f). fd f) (files p))"
    using assms(2) by (auto simp: descriptors_distinct_def list_all_iff)
  have refs: "\<And>ident. descriptor_refs (populateProcessTable ?procs) ident
                 = occurrences (exposed_files raw) ident"
    using descriptor_refs_populate [OF dd] by (simp add: exposed_files_def)
  have 1: "\<forall>(ident, e) \<in> set tbl. refcount e = descriptor_refs (populateProcessTable ?procs) ident"
    using populateOpenFileTable_refcount [OF tbl] refs by auto
  have 2: "\<forall>(v, e) \<in> set vn. vnode_refcount e = openFile_refs tbl v"
    using populateVnodeTable_refcount(2) [OF vn] by auto
  from 1 2 populateOpenFileTable_distinct [OF tbl] populateVnodeTable_refcount(1) [OF vn]
  show ?thesis by (simp add: info)
qed

theorem reference_counts_witness:
  "cleanContainerData sample_namespace = Inr (4000, sample_info)
   \<and> descriptors_distinct sample_namespace
   \<and> map (\<lambda>(ident, e). (ident, refcount e)) (openFiles sample_info) = [(''6d2b'', 2)]
   \<and> descriptor_refs (processes sample_info) ''6d2b'' = 2
   \<and> map (\<lambda>(v, e). (v, vnode_refcount e)) (vnodes sample_info) = [(''/dev/pts/0'', 1)]
   \<and> openFile_refs (openFiles sample_info) ''/dev/pts/0'' = 1"
proof -
  have d: "descriptors_distinct sample_namespace"
    by (simp add: descriptors_distinct_def sample_namespace_def sample_init_def)
  from reference_counts [OF sample_namespace_reconstructs d]
  have "refcount (snd (hd (openFiles sample_info))) = descriptor_refs (processes sample_info) ''6d2b''"
    and "vnode_refcount (snd (hd (vnodes sample_info))) = openFile_refs (openFiles sample_info) ''/dev/pts/0''"
    by (simp_all add: sample_info_def)
  then show ?thesis
    using sample_namespace_reconstructs d by (simp add: sample_info_def)
qed








lemma reconstructTables_snoc:
  "reconstructTables (nss @ [(nsid, raw)]) =
     (case cleanContainerData raw of
        Inl exc \<Rightarrow> reconstructTables nss
      | Inr (initPID, data) \<Rightarrow> AList.update initPID data (reconstructTables nss))"
  by (simp add: reconstructTables_def split: sum.splits prod.splits)




subsection \<open>Which namespaces reconstruct\<close>

lemma inherited_key_iff:
  "inherited_key fs \<longleftrightarrow>
     (\<exists>f \<in> set fs. openFileID f \<in> set Object_prototype_keys)
     \<or> (\<exists>f \<in> set fs. vnodeName f \<in> set Object_prototype_keys)"
  unfolding inherited_key_def list_ex_iff by blast

lemma populateVnodeTable_refcounts_total:
  assumes tbl: "populateOpenFileTable fs = Inr tbl"
    and t0: "populateVnodeTable_entries fs [] = Inr t0"
  shows "\<exists>vn. populateVnodeTable_refcounts (map snd tbl) t0 = Inr vn"
proof (rule vnode_refcounts_success, rule ballI)
  fix x assume "x \<in> set (map snd tbl)"
  then obtain k where "(k, x) \<in> set tbl" by auto
  with populateOpenFileTable_distinct [OF tbl] have m: "map_of tbl k = Some x" by simp
  have tbl': "populateOpenFileTable_loop fs [] = Inr tbl"
    using tbl by (simp add: populateOpenFileTable_def)
  from openFile_loop_entries [OF tbl']
  have "\<forall>k e. map_of tbl k = Some e
          \<longrightarrow> (\<exists>f \<in> set fs. openFileID f = k \<and> vnode e = vnodeName f)"
    by simp
  with m obtain f where f: "f \<in> set fs" and v: "vnode x = vnodeName f" by auto
  from vnode_entries_dom [OF t0] f have "map_of t0 (vnodeName f) \<noteq> None" by blast
  with v show "map_of t0 (vnode x) \<noteq> None" by simp
qed

lemma populateOpenFileTable_succeeds_iff:
  "(\<exists>tbl. populateOpenFileTable fs = Inr tbl) \<longleftrightarrow>
     \<not> conflicting fs \<and> (\<forall>f \<in> set fs. openFileID f \<notin> set Object_prototype_keys)"
proof
  assume "\<exists>tbl. populateOpenFileTable fs = Inr tbl"
  then obtain tbl where tbl: "populateOpenFileTable fs = Inr tbl" by blast
  have "\<not> conflicting fs"
    using conflicting_fails [of fs] tbl by auto
  moreover have "\<forall>f \<in> set fs. openFileID f \<notin> set Object_prototype_keys"
    using openFile_loop_inherited [of fs "[]"] tbl by (auto simp: populateOpenFileTable_def)
  ultimately show "\<not> conflicting fs \<and> (\<forall>f \<in> set fs. openFileID f \<notin> set Object_prototype_keys)"
    by blast
next
  assume a: "\<not> conflicting fs \<and> (\<forall>f \<in> set fs. openFileID f \<notin> set Object_prototype_keys)"
  have "\<exists>out. populateOpenFileTable_loop fs [] = Inr out"
    by (rule openFile_loop_success) (use a in simp_all)
  then show "\<exists>tbl. populateOpenFileTable fs = Inr tbl"
    by (simp add: populateOpenFileTable_def)
qed

lemma populateVnodeTable_succeeds_iff:
  assumes tbl: "populateOpenFileTable fs = Inr tbl"
  shows "(\<exists>vn. populateVnodeTable fs tbl = Inr vn) \<longleftrightarrow>
     (\<forall>f \<in> set fs. vnodeName f \<notin> set Object_prototype_keys)"
proof
  assume "\<exists>vn. populateVnodeTable fs tbl = Inr vn"
  then obtain t0 where "populateVnodeTable_entries fs [] = Inr t0"
    by (auto simp: populateVnodeTable_def split: sum.splits)
  then show "\<forall>f \<in> set fs. vnodeName f \<notin> set Object_prototype_keys"
    using vnode_entries_inherited [of fs "[]"] by auto
next
  assume a: "\<forall>f \<in> set fs. vnodeName f \<notin> set Object_prototype_keys"
  have "\<exists>out. populateVnodeTable_entries fs [] = Inr out"
    by (rule vnode_entries_success) (use a in simp_all)
  then obtain t0 where t0: "populateVnodeTable_entries fs [] = Inr t0" by blast
  from populateVnodeTable_refcounts_total [OF tbl t0] t0
  show "\<exists>vn. populateVnodeTable fs tbl = Inr vn"
    by (simp add: populateVnodeTable_def)
qed

lemma populateVnodeTable_errors:
  assumes tbl: "populateOpenFileTable fs = Inr tbl" and "populateVnodeTable fs tbl = Inl e"
  shows "\<exists>m. e = DebugDataError m"
proof (cases "populateVnodeTable_entries fs []")
  case (Inl e')
  with assms(2) have "e' = e" by (simp add: populateVnodeTable_def)
  with Inl vnode_entries_errors show ?thesis by blast
next
  case (Inr t0)
  from populateVnodeTable_refcounts_total [OF tbl Inr] Inr assms(2) show ?thesis
    by (auto simp: populateVnodeTable_def)
qed

lemma cleanContainerData_succeeds_iff:
  "(\<exists>r. cleanContainerData raw = Inr r) \<longleftrightarrow> well_formed raw"
proof
  assume "\<exists>r. cleanContainerData raw = Inr r"
  then obtain g info where "cleanContainerData raw = Inr (g, info)" by auto
  from cleanContainerData_Inr [OF this] obtain init tbl vn
    where init: "map_of raw ''1'' = Some init"
      and tbl: "populateOpenFileTable (exposed_files raw) = Inr tbl"
      and vn: "populateVnodeTable (exposed_files raw) tbl = Inr vn"
    by blast
  from tbl populateOpenFileTable_succeeds_iff [of "exposed_files raw"]
  have 1: "\<not> conflicting (exposed_files raw)"
    and 2: "\<forall>f \<in> set (exposed_files raw). openFileID f \<notin> set Object_prototype_keys"
    by blast+
  from vn populateVnodeTable_succeeds_iff [OF tbl]
  have 3: "\<forall>f \<in> set (exposed_files raw). vnodeName f \<notin> set Object_prototype_keys"
    by blast
  from 2 3 have "\<not> inherited_key (exposed_files raw)"
    unfolding inherited_key_iff by blast
  with init 1 show "well_formed raw" by (simp add: well_formed_def)
next
  assume wf: "well_formed raw"
  then obtain init where init: "map_of raw ''1'' = Some init"
    by (auto simp: well_formed_def)
  from wf have nc: "\<not> conflicting (exposed_files raw)"
    and ni: "\<not> inherited_key (exposed_files raw)"
    by (simp_all add: well_formed_def)
  from ni have k1: "\<forall>f \<in> set (exposed_files raw). openFileID f \<notin> set Object_prototype_keys"
    and k2: "\<forall>f \<in> set (exposed_files raw). vnodeName f \<notin> set Object_prototype_keys"
    unfolding inherited_key_iff by blast+
  from nc k1 populateOpenFileTable_succeeds_iff [of "exposed_files raw"]
  obtain tbl where tbl: "populateOpenFileTable (exposed_files raw) = Inr tbl" by blast
  from k2 populateVnodeTable_succeeds_iff [OF tbl]
  obtain vn where vn: "populateVnodeTable (exposed_files raw) tbl = Inr vn" by blast
  have "cleanContainerData raw = Inr (globalPID init,
          \<lparr>processes = populateProcessTable (filter (\<lambda>p. containerPID p > 1) (map snd raw)),
           openFiles = tbl, vnodes = vn\<rparr>)"
    using init tbl vn by (simp add: cleanContainerData_def exposed_files_def Let_def)
  then show "\<exists>r. cleanContainerData raw = Inr r" by blast
qed

lemma cleanContainerData_fails:
  assumes "cleanContainerData raw = Inl e"
  shows "\<exists>m. e = DebugDataError m"
proof (cases "map_of raw ''1''")
  case None
  with assms show ?thesis by (auto simp: cleanContainerData_def)
next
  case (Some init)
  show ?thesis
  proof (cases "populateOpenFileTable (exposed_files raw)")
    case (Inl e')
    with Some assms have "e' = e"
      by (simp add: cleanContainerData_def exposed_files_def Let_def)
    with Inl openFile_loop_errors [of "exposed_files raw" "[]" e'] show ?thesis
      by (simp add: populateOpenFileTable_def)
  next
    case (Inr tbl)
    with Some assms have "populateVnodeTable (exposed_files raw) tbl = Inl e"
      by (simp add: cleanContainerData_def exposed_files_def Let_def split: sum.splits)
    from populateVnodeTable_errors [OF Inr this] show ?thesis .
  qed
qed

lemma reconstructTables_skip:
  assumes "cleanContainerData bad = Inl e"
  shows "reconstructTables (pre @ (nsid, bad) # post) = reconstructTables (pre @ post)"
  using assms by (simp add: reconstructTables_def)

lemma reconstructTables_lookup:
  assumes "(n, good) \<in> set nss" and "cleanContainerData good = Inr (g, info)"
    and "\<forall>(n', other) \<in> set nss. other \<noteq> good \<longrightarrow> initPID_of other \<noteq> Some g"
  shows "map_of (reconstructTables nss) g = Some info"
  using assms(1,3)
proof (induction nss rule: rev_induct)
  case Nil
  then show ?case by simp
next
  case (snoc x nss)
  obtain n' raw where x: "x = (n', raw)" by (cases x)
  show ?case
  proof (cases "raw = good")
    case True
    with x assms(2) show ?thesis by (simp add: reconstructTables_snoc update_conv')
  next
    case False
    with snoc.prems(1) x have mem: "(n, good) \<in> set nss" by auto
    have others: "\<forall>(n', other) \<in> set nss. other \<noteq> good \<longrightarrow> initPID_of other \<noteq> Some g"
      using snoc.prems(2) by auto
    note IH = snoc.IH [OF mem others]
    show ?thesis
    proof (cases "cleanContainerData raw")
      case (Inl e)
      with x IH show ?thesis by (simp add: reconstructTables_snoc)
    next
      case (Inr r)
      obtain g' info' where r: "r = (g', info')" by (cases r)
      from cleanContainerData_Inr [of raw g' info'] Inr r
      have "initPID_of raw = Some g'" by (auto simp: initPID_of_def)
      moreover from snoc.prems(2) x False have "initPID_of raw \<noteq> Some g" by auto
      ultimately have "g' \<noteq> g" by auto
      with x Inr r IH show ?thesis by (simp add: reconstructTables_snoc update_conv')
    qed
  qed
qed


lemma headless_namespace_fails:
  "cleanContainerData headless_namespace
     = Inl (DebugDataError ''This namespace seems to be missing an init process!'')"
  by (simp add: cleanContainerData_def headless_namespace_def)

lemma exposed_conflict_namespace_fails:
  "cleanContainerData exposed_conflict_namespace
     = Inl (DebugDataError ''There is already an open file with different info'')"
  by (simp add: cleanContainerData_def exposed_conflict_namespace_def
      shared_terminal_def populateOpenFileTable_def Object_prototype_keys_def deepCompare_def
      without_refcount_def Let_def)

lemma init_conflict_namespace_reconstructs:
  "cleanContainerData init_conflict_namespace = Inr (6000, init_conflict_info)"
  by (simp add: cleanContainerData_def init_conflict_namespace_def init_conflict_info_def
      shared_terminal_def populateOpenFileTable_def populateVnodeTable_def
      populateProcessTable_def Object_prototype_keys_def deepCompare_def without_refcount_def
      Let_def)

text \<open>
  C4, as the code has it. A namespace with no entry under \<^verbatim>\<open>'1'\<close>, or with conflicting
  file records among the processes it exposes (container pid greater than 1), fails
  with a DebugDataError; reconstructTables then returns what it returns for the input
  without that namespace; and every other namespace that is well formed, and whose init
  process's global pid no other namespace shares, is in the result under that pid.
\<close>

theorem reconstruction_failures_isolated:
  assumes "map_of bad ''1'' = None \<or> conflicting (exposed_files bad)"
  shows "(\<exists>m. cleanContainerData bad = Inl (DebugDataError m))
       \<and> reconstructTables (pre @ (nsid, bad) # post) = reconstructTables (pre @ post)
       \<and> (\<forall>(n, good) \<in> set (pre @ post).
             well_formed good
             \<and> (\<forall>(n', other) \<in> set (pre @ post). other \<noteq> good \<longrightarrow> initPID_of other \<noteq> initPID_of good)
             \<longrightarrow> (\<exists>init info. map_of good ''1'' = Some init
                   \<and> cleanContainerData good = Inr (globalPID init, info)
                   \<and> map_of (reconstructTables (pre @ (nsid, bad) # post)) (globalPID init) = Some info))"
proof -
  from assms have "\<not> well_formed bad" by (auto simp: well_formed_def)
  with cleanContainerData_succeeds_iff [of bad] obtain e where e: "cleanContainerData bad = Inl e"
    by (cases "cleanContainerData bad") auto
  from cleanContainerData_fails [OF e] e
  have 1: "\<exists>m. cleanContainerData bad = Inl (DebugDataError m)" by auto
  have 2: "reconstructTables (pre @ (nsid, bad) # post) = reconstructTables (pre @ post)"
    by (rule reconstructTables_skip [OF e])
  have 3: "\<forall>(n, good) \<in> set (pre @ post).
             well_formed good
             \<and> (\<forall>(n', other) \<in> set (pre @ post). other \<noteq> good \<longrightarrow> initPID_of other \<noteq> initPID_of good)
             \<longrightarrow> (\<exists>init info. map_of good ''1'' = Some init
                   \<and> cleanContainerData good = Inr (globalPID init, info)
                   \<and> map_of (reconstructTables (pre @ (nsid, bad) # post)) (globalPID init) = Some info)"
  proof (intro ballI, clarify)
    fix n good
    assume mem: "(n, good) \<in> set (pre @ post)" and wf: "well_formed good"
      and u: "\<forall>(n', other) \<in> set (pre @ post). other \<noteq> good \<longrightarrow> initPID_of other \<noteq> initPID_of good"
    from wf cleanContainerData_succeeds_iff [of good] obtain g info
      where c: "cleanContainerData good = Inr (g, info)" by auto
    from cleanContainerData_Inr [OF c] obtain init
      where init: "map_of good ''1'' = Some init" and g: "g = globalPID init" by blast
    then have "initPID_of good = Some g" by (simp add: initPID_of_def)
    with u have u': "\<forall>(n', other) \<in> set (pre @ post). other \<noteq> good \<longrightarrow> initPID_of other \<noteq> Some g"
      by simp
    from reconstructTables_lookup [OF mem c u'] 2
    have "map_of (reconstructTables (pre @ (nsid, bad) # post)) g = Some info" by simp
    with init c g
    show "\<exists>init info. map_of good ''1'' = Some init
                   \<and> cleanContainerData good = Inr (globalPID init, info)
                   \<and> map_of (reconstructTables (pre @ (nsid, bad) # post)) (globalPID init) = Some info"
      by blast
  qed
  from 1 2 3 show ?thesis by blast
qed

theorem reconstruction_failures_isolated_witness:
  "map_of headless_namespace ''1'' = None
   \<and> conflicting (exposed_files exposed_conflict_namespace)
   \<and> cleanContainerData headless_namespace
       = Inl (DebugDataError ''This namespace seems to be missing an init process!'')
   \<and> cleanContainerData exposed_conflict_namespace
       = Inl (DebugDataError ''There is already an open file with different info'')
   \<and> well_formed sample_namespace
   \<and> reconstructTables [(''ns-b'', headless_namespace), (''ns-a'', sample_namespace),
         (''ns-d'', exposed_conflict_namespace)] = [(4000, sample_info)]"
proof -
  have h: "map_of headless_namespace ''1'' = None"
    by (simp add: headless_namespace_def)
  have c: "conflicting (exposed_files exposed_conflict_namespace)"
    by (simp add: conflicting_def exposed_files_def exposed_conflict_namespace_def
        shared_terminal_def file_data_def)
  have wf: "well_formed sample_namespace"
    using cleanContainerData_succeeds_iff [of sample_namespace] sample_namespace_reconstructs
    by simp
  from reconstruction_failures_isolated [of headless_namespace "[]" "''ns-b''"
      "[(''ns-a'', sample_namespace), (''ns-d'', exposed_conflict_namespace)]"] h
  have 1: "reconstructTables [(''ns-b'', headless_namespace), (''ns-a'', sample_namespace),
         (''ns-d'', exposed_conflict_namespace)]
       = reconstructTables [(''ns-a'', sample_namespace), (''ns-d'', exposed_conflict_namespace)]"
    by simp
  from reconstruction_failures_isolated [of exposed_conflict_namespace
      "[(''ns-a'', sample_namespace)]" "''ns-d''" "[]"] c
  have 2: "reconstructTables [(''ns-a'', sample_namespace), (''ns-d'', exposed_conflict_namespace)]
       = reconstructTables [(''ns-a'', sample_namespace)]"
    by simp
  have 3: "reconstructTables [(''ns-a'', sample_namespace)] = [(4000, sample_info)]"
    by (simp add: reconstructTables_def sample_namespace_reconstructs)
  from h c wf 1 2 3 headless_namespace_fails exposed_conflict_namespace_fails
  show ?thesis by simp
qed

theorem conflict_with_init_record_counterexample:
  "conflicting (all_files init_conflict_namespace)
   \<and> reconstructTables [(''ns-c'', init_conflict_namespace), (''ns-a'', sample_namespace)]
       = [(6000, init_conflict_info), (4000, sample_info)]"
proof -
  have "conflicting (all_files init_conflict_namespace)"
    by (simp add: conflicting_def all_files_def init_conflict_namespace_def
        shared_terminal_def file_data_def)
  moreover have "reconstructTables [(''ns-c'', init_conflict_namespace), (''ns-a'', sample_namespace)]
       = [(6000, init_conflict_info), (4000, sample_info)]"
    by (simp add: reconstructTables_def sample_namespace_reconstructs
        init_conflict_namespace_reconstructs)
  ultimately show ?thesis by simp
qed

section \<open>Properties of getRunParams\<close>

lemma dropWhile_rev_last:
  "s \<noteq> [] \<Longrightarrow> \<not> P (last s) \<Longrightarrow> dropWhile P (rev s) = rev s"
  by (cases s rule: rev_cases) auto

lemma trim_token:
  assumes "s \<noteq> []" "\<not> isWhiteSpace (hd s)" "\<not> isWhiteSpace (last s)"
  shows "trim s = s"
proof -
  from assms(1,2) have "dropWhile isWhiteSpace s = s" by (cases s) auto
  with assms(1,3) show ?thesis by (simp add: trim_def dropWhile_rev_last)
qed

lemma space_isWhiteSpace: "isWhiteSpace CHR '' ''"
  by (simp add: isWhiteSpace_def)

lemma trim_trailing_space:
  assumes "s \<noteq> []" "\<not> isWhiteSpace (hd s)" "\<not> isWhiteSpace (last s)"
  shows "trim (s @ '' '') = s"
proof -
  from assms(1,2) have "dropWhile isWhiteSpace (s @ '' '') = s @ '' ''" by (cases s) auto
  moreover have "dropWhile isWhiteSpace (rev (s @ '' '')) = rev s"
    using assms(1,3) by (simp add: space_isWhiteSpace dropWhile_rev_last)
  ultimately show ?thesis by (simp add: trim_def)
qed

lemma join_last:
  "fs \<noteq> [] \<Longrightarrow> \<forall>f \<in> set fs. token f \<Longrightarrow>
   join sep fs \<noteq> [] \<and> last (join sep fs) = last (last fs)"
proof (induction sep fs rule: join.induct)
  case (1 sep)
  then show ?case by simp
next
  case (2 sep x)
  then show ?case by (simp add: token_def)
next
  case (3 sep x y ys)
  then show ?case by (simp add: token_def)
qed

lemma join_Cons: "fs \<noteq> [] \<Longrightarrow> join sep (x # fs) = x @ sep @ join sep fs"
  by (cases fs) auto

lemma isWhiteSpace_lower:
  "isWhiteSpace (if 65 \<le> (of_char c :: nat) \<and> (of_char c :: nat) \<le> 90
                then char_of (of_char c + 32 :: nat) else c) = isWhiteSpace c"
  by (auto simp: isWhiteSpace_def)

lemma toLowerCase_token: "token s \<Longrightarrow> token (toLowerCase s)"
  by (cases s rule: rev_cases) (auto simp: token_def toLowerCase_def isWhiteSpace_lower)

lemma std_flag:
  assumes "token L"
  shows "''-std='' @ L \<noteq> []" "\<not> isWhiteSpace (hd (''-std='' @ L))"
    "\<not> isWhiteSpace (last (''-std='' @ L))"
  using assms by (simp_all add: token_def isWhiteSpace_def)

lemma compose_tokens:
  assumes L: "token L" and fs: "\<forall>f \<in> set fs. token f"
  shows "trim (''-std='' @ L @ '' '' @ join '' '' fs) = join '' '' ((''-std='' @ L) # fs)"
proof (cases fs)
  case Nil
  have "trim ((''-std='' @ L) @ '' '') = ''-std='' @ L"
    by (rule trim_trailing_space) (rule std_flag [OF L])+
  with Nil show ?thesis by simp
next
  case (Cons f fs')
  then have ne: "fs \<noteq> []" by simp
  let ?s = "''-std='' @ L @ '' '' @ join '' '' fs"
  from join_last [OF ne fs] have j: "join '' '' fs \<noteq> []" "last (join '' '' fs) = last (last fs)"
    by simp_all
  from ne fs have "token (last fs)" by simp
  with j have l: "\<not> isWhiteSpace (last ?s)" by (simp add: token_def)
  have "trim ?s = ?s"
    by (rule trim_token) (use l in \<open>simp_all add: isWhiteSpace_def\<close>)
  with ne show ?thesis by (simp add: join_Cons)
qed

lemma effective_language_token:
  "tokens_config cfg \<Longrightarrow> token (effective_language cfg request)"
  by (auto simp: tokens_config_def effective_language_def list_all_iff)

lemma composed_cflags_tokens:
  assumes "tokens_config cfg"
  shows "composed_cflags cfg request
         = join '' '' ((''-std='' @ toLowerCase (effective_language cfg request))
                       # filter (\<lambda>flag. flag \<in> set (FLAG_WHITELIST cfg)) (requested_flags request))"
proof -
  have "\<forall>f \<in> set (suppliedCflags cfg request). token f"
    using assms by (auto simp: suppliedCflags_def tokens_config_def list_all_iff)
  from compose_tokens [OF toLowerCase_token [OF effective_language_token [OF assms]] this]
  show ?thesis by (simp add: composed_cflags_def suppliedCflags_def requested_flags_def)
qed

lemma length_filter_less_iff:
  "length (filter P xs) \<noteq> length xs \<longleftrightarrow> (\<exists>x \<in> set xs. \<not> P x)"
  by (metis filter_True filter_id_conv length_filter_le less_le sum_length_filter_compl add_cancel_right_right length_0_conv filter_empty_conv)

lemma getRunParams_sample:
  "getRunParams sample_config sample_request = (True, Inr sample_params)"
  by (simp add: getRunParams_def composed_cflags_def effective_language_def suppliedCflags_def
      requested_flags_def flags_length_def
      sample_config_def sample_request_def sample_params_def toLowerCase_def trim_def
      isWhiteSpace_def or_empty_def Let_def char_of_eq_iff)

lemma getRunParams_c99:
  "getRunParams sample_config c99_request = (True, Inr c99_params)"
  by (simp add: getRunParams_def composed_cflags_def effective_language_def suppliedCflags_def
      requested_flags_def flags_length_def c99_request_def c99_params_def
      sample_config_def sample_request_def sample_params_def toLowerCase_def trim_def
      isWhiteSpace_def or_empty_def Let_def char_of_eq_iff)

lemma getRunParams_oversized:
  "getRunParams sample_config oversized_request
     = (True, Inl (ClientValidationError ''Submitted code exceeds max length!''))"
  by (simp add: getRunParams_def composed_cflags_def effective_language_def suppliedCflags_def
      requested_flags_def flags_length_def
      sample_config_def sample_request_def oversized_request_def toLowerCase_def trim_def
      isWhiteSpace_def or_empty_def Let_def char_of_eq_iff)

lemma getRunParams_string_flags:
  "getRunParams sample_config string_flags_request
     = (True, Inr (sample_params\<lparr>cflags := ''-std=c++17''\<rparr>))"
  by (simp add: getRunParams_def composed_cflags_def effective_language_def suppliedCflags_def
      requested_flags_def flags_length_def string_flags_request_def
      sample_config_def sample_request_def sample_params_def toLowerCase_def trim_def
      isWhiteSpace_def or_empty_def Let_def char_of_eq_iff)

lemma getRunParams_language:
  assumes "effective_language cfg request' = effective_language cfg request"
    and "request' = request\<lparr>language := l\<rparr>"
  shows "getRunParams cfg request' = getRunParams cfg request"
  using assms
  by (simp add: getRunParams_def composed_cflags_def suppliedCflags_def requested_flags_def
      flags_length_def Let_def)

lemma warned_iff:
  "fst (getRunParams cfg request) \<longleftrightarrow>
     (case req_flags request of
        NoFlags \<Rightarrow> False
      | FlagsArray fs \<Rightarrow> (\<exists>flag \<in> set fs. flag \<notin> set (FLAG_WHITELIST cfg))
      | NotAnArray len \<Rightarrow> len \<noteq> Some 0)"
proof (cases "req_flags request")
  case NoFlags
  then show ?thesis
    by (simp add: getRunParams_def Let_def suppliedCflags_def requested_flags_def flags_length_def)
next
  case (FlagsArray fs)
  then show ?thesis
    using length_filter_less_iff [of "\<lambda>flag. flag \<in> set (FLAG_WHITELIST cfg)" fs]
    by (simp add: getRunParams_def Let_def suppliedCflags_def requested_flags_def flags_length_def)
next
  case (NotAnArray len)
  then show ?thesis
    by (auto simp: getRunParams_def Let_def suppliedCflags_def requested_flags_def flags_length_def)
qed

text \<open>
  C6, as the code has it. The language never causes a rejection: a supported language is
  kept and an unsupported one is replaced by the default, the request being treated
  exactly as the same request with the default language. On success the compiler is gcc
  exactly for C99 and C11, and the flag string is the composed one: \<^verbatim>\<open>-std=\<close> and the
  lowercased language, then a space and the whitelisted elements of the flags array
  joined by spaces, trimmed; for a configuration whose flags and language names are
  tokens that is \<^verbatim>\<open>-std=\<close> with the language and the surviving flags, joined by single
  spaces. A flags value that is not an array contributes no flag. The warning fires
  exactly when an element of the flags array was dropped, or the flags value is a truthy
  non-array whose length is not 0. The flag rule rejects, with its own message, exactly
  when the composed string is longer than the maximum; validation as a whole rejects
  whenever it is, and also for the other rules.
\<close>

theorem run_params_language_and_flags:
  assumes "lang = (if language request \<in> set (SUPPORTED_VERSIONS cfg) then language request
                   else DEFAULT_VERSION cfg)"
    and "kept = (case req_flags request of
                   FlagsArray fs \<Rightarrow> filter (\<lambda>flag. flag \<in> set (FLAG_WHITELIST cfg)) fs
                 | _ \<Rightarrow> [])"
    and "composed = trim (''-std='' @ toLowerCase lang @ '' '' @ join '' '' kept)"
  shows "(language request \<notin> set (SUPPORTED_VERSIONS cfg) \<longrightarrow>
            getRunParams cfg request = getRunParams cfg (request\<lparr>language := DEFAULT_VERSION cfg\<rparr>))
       \<and> (\<forall>p. snd (getRunParams cfg request) = Inr p \<longrightarrow>
            compiler p = (if lang = ''C99'' \<or> lang = ''C11'' then gcc else gpp)
            \<and> cflags p = composed)
       \<and> (tokens_config cfg \<longrightarrow> composed = join '' '' ((''-std='' @ toLowerCase lang) # kept))
       \<and> (fst (getRunParams cfg request) \<longleftrightarrow>
            (case req_flags request of
               NoFlags \<Rightarrow> False
             | FlagsArray fs \<Rightarrow> (\<exists>flag \<in> set fs. flag \<notin> set (FLAG_WHITELIST cfg))
             | NotAnArray len \<Rightarrow> len \<noteq> Some 0))
       \<and> (snd (getRunParams cfg request)
              = Inl (ClientValidationError ''Submitted cflags exceeds max length!'')
            \<longleftrightarrow> CFLAGS_MAX_LEN cfg < length composed)
       \<and> (CFLAGS_MAX_LEN cfg < length composed \<longrightarrow> (\<exists>e. snd (getRunParams cfg request) = Inl e))"
proof -
  have l: "effective_language cfg request = lang"
    by (simp add: effective_language_def assms(1))
  have k: "suppliedCflags cfg request = kept"
    by (simp add: suppliedCflags_def requested_flags_def assms(2) split: flags_value.splits)
  have c: "composed_cflags cfg request = composed"
    by (simp add: composed_cflags_def l k assms(3))
  have 1: "language request \<notin> set (SUPPORTED_VERSIONS cfg) \<longrightarrow>
            getRunParams cfg request = getRunParams cfg (request\<lparr>language := DEFAULT_VERSION cfg\<rparr>)"
  proof
    assume "language request \<notin> set (SUPPORTED_VERSIONS cfg)"
    then have "effective_language cfg (request\<lparr>language := DEFAULT_VERSION cfg\<rparr>)
               = effective_language cfg request"
      by (simp add: effective_language_def)
    from getRunParams_language [OF this refl]
    show "getRunParams cfg request = getRunParams cfg (request\<lparr>language := DEFAULT_VERSION cfg\<rparr>)"
      by simp
  qed
  have 2: "\<forall>p. snd (getRunParams cfg request) = Inr p \<longrightarrow>
            compiler p = (if lang = ''C99'' \<or> lang = ''C11'' then gcc else gpp)
            \<and> cflags p = composed"
    by (auto simp: getRunParams_def Let_def l c split: if_splits)
  have 3: "tokens_config cfg \<longrightarrow> composed = join '' '' ((''-std='' @ toLowerCase lang) # kept)"
  proof
    assume t: "tokens_config cfg"
    have tk: "\<forall>f \<in> set kept. token f"
      using t by (auto simp: assms(2) tokens_config_def list_all_iff split: flags_value.splits)
    have tl: "token lang"
      using t by (auto simp: assms(1) tokens_config_def list_all_iff)
    from compose_tokens [OF toLowerCase_token [OF tl] tk]
    show "composed = join '' '' ((''-std='' @ toLowerCase lang) # kept)"
      by (simp add: assms(3))
  qed
  have 5: "snd (getRunParams cfg request)
              = Inl (ClientValidationError ''Submitted cflags exceeds max length!'')
            \<longleftrightarrow> CFLAGS_MAX_LEN cfg < length composed"
    by (simp add: getRunParams_def Let_def c)
  have 6: "CFLAGS_MAX_LEN cfg < length composed \<longrightarrow> (\<exists>e. snd (getRunParams cfg request) = Inl e)"
    using 5 by blast
  from 1 2 3 warned_iff [of cfg request] 5 6 show ?thesis by blast
qed

theorem run_params_language_and_flags_witness:
  "language c99_request \<in> set (SUPPORTED_VERSIONS sample_config)
   \<and> language sample_request \<notin> set (SUPPORTED_VERSIONS sample_config)
   \<and> tokens_config sample_config
   \<and> getRunParams sample_config c99_request = (True, Inr c99_params)
   \<and> compiler c99_params = gcc \<and> cflags c99_params = ''-std=c99 -O2 -Wall''
   \<and> getRunParams sample_config sample_request = (True, Inr sample_params)
   \<and> getRunParams sample_config (sample_request\<lparr>language := ''C++17''\<rparr>)
       = (True, Inr sample_params)
   \<and> compiler sample_params = gpp \<and> cflags sample_params = ''-std=c++17 -O2 -Wall''"
proof -
  have s: "language c99_request \<in> set (SUPPORTED_VERSIONS sample_config)"
    by (simp add: c99_request_def sample_request_def sample_config_def)
  have u: "language sample_request \<notin> set (SUPPORTED_VERSIONS sample_config)"
    by (simp add: sample_request_def sample_config_def)
  have t: "tokens_config sample_config"
    by (simp add: tokens_config_def sample_config_def token_def isWhiteSpace_def)
  have d: "DEFAULT_VERSION sample_config = ''C++17''" by (simp add: sample_config_def)
  have w: "FLAG_WHITELIST sample_config = [''-O2'', ''-Wall'', ''-pthread'']"
    by (simp add: sample_config_def)
  have f: "req_flags c99_request = FlagsArray [''-O2'', ''-fplugin=x'', ''-Wall'']"
    "req_flags sample_request = FlagsArray [''-O2'', ''-fplugin=x'', ''-Wall'']"
    by (simp_all add: c99_request_def sample_request_def)
  note c99 = run_params_language_and_flags [of "''C99''" c99_request sample_config
      "[''-O2'', ''-Wall'']" "trim (''-std='' @ toLowerCase ''C99'' @ '' '' @ join '' '' [''-O2'', ''-Wall''])"]
  have c99_pre: "''C99'' = (if language c99_request \<in> set (SUPPORTED_VERSIONS sample_config)
        then language c99_request else DEFAULT_VERSION sample_config)"
    using s by (simp add: c99_request_def)
  have kept_pre: "[''-O2'', ''-Wall''] = (case req_flags c99_request of
        FlagsArray fs \<Rightarrow> filter (\<lambda>flag. flag \<in> set (FLAG_WHITELIST sample_config)) fs
      | _ \<Rightarrow> [])"
    by (simp add: f w)
  from c99 [OF c99_pre kept_pre refl] getRunParams_c99
  have g: "compiler c99_params = gcc"
    and c: "cflags c99_params
          = trim (''-std='' @ toLowerCase ''C99'' @ '' '' @ join '' '' [''-O2'', ''-Wall''])"
    by simp_all
  from c99 [OF c99_pre kept_pre refl] t
  have "trim (''-std='' @ toLowerCase ''C99'' @ '' '' @ join '' '' [''-O2'', ''-Wall''])
        = join '' '' ((''-std='' @ toLowerCase ''C99'') # [''-O2'', ''-Wall''])"
    by blast
  with c have c': "cflags c99_params = ''-std=c99 -O2 -Wall''"
    by (simp add: toLowerCase_def char_of_eq_iff)
  note rust = run_params_language_and_flags [of "''C++17''" sample_request sample_config
      "[''-O2'', ''-Wall'']" "trim (''-std='' @ toLowerCase ''C++17'' @ '' '' @ join '' '' [''-O2'', ''-Wall''])"]
  have rust_pre: "''C++17'' = (if language sample_request \<in> set (SUPPORTED_VERSIONS sample_config)
        then language sample_request else DEFAULT_VERSION sample_config)"
    using u d by simp
  have kept_pre': "[''-O2'', ''-Wall''] = (case req_flags sample_request of
        FlagsArray fs \<Rightarrow> filter (\<lambda>flag. flag \<in> set (FLAG_WHITELIST sample_config)) fs
      | _ \<Rightarrow> [])"
    by (simp add: f w)
  from rust [OF rust_pre kept_pre' refl] u d
  have a: "getRunParams sample_config sample_request
      = getRunParams sample_config (sample_request\<lparr>language := ''C++17''\<rparr>)"
    by simp
  from s u t g c' a getRunParams_c99 getRunParams_sample show ?thesis
    by (simp add: sample_params_def)
qed

text \<open>
  Where the claim as it was stated fails. A request whose code is too long is rejected
  although its composed flag string is within the maximum. And for a request whose flags
  field is the string \<^verbatim>\<open>"-O2"\<close>, a whitelisted flag, the warning fires and the flag
  string holds no flag.
\<close>

theorem run_params_rejection_counterexample:
  "composed_cflags sample_config oversized_request = ''-std=c++17 -O2 -Wall''
   \<and> \<not> CFLAGS_MAX_LEN sample_config < length (composed_cflags sample_config oversized_request)
   \<and> snd (getRunParams sample_config oversized_request)
       = Inl (ClientValidationError ''Submitted code exceeds max length!'')
   \<and> ''-O2'' \<in> set (FLAG_WHITELIST sample_config)
   \<and> getRunParams sample_config string_flags_request
       = (True, Inr (sample_params\<lparr>cflags := ''-std=c++17''\<rparr>))"
proof -
  have "composed_cflags sample_config oversized_request = ''-std=c++17 -O2 -Wall''"
    by (simp add: composed_cflags_def effective_language_def suppliedCflags_def
        requested_flags_def sample_config_def sample_request_def oversized_request_def
        toLowerCase_def trim_def isWhiteSpace_def char_of_eq_iff)
  moreover have "CFLAGS_MAX_LEN sample_config = 100" "''-O2'' \<in> set (FLAG_WHITELIST sample_config)"
    by (simp_all add: sample_config_def)
  ultimately show ?thesis
    by (simp add: getRunParams_oversized getRunParams_string_flags)
qed

text \<open>
  C7. getRunParams fails exactly when the composed flag string, the code or the
  arguments are longer than their maximum, when a supplied include-file id resolves to
  no bytes, or when debug is off and there are breakpoints; every failure is a
  ClientValidationError; and when validation fails, startContainer constructs no
  container, calls no persistence function, emits nothing, and disconnects the socket.
\<close>

theorem run_params_failures:
  "((\<exists>e. snd (getRunParams cfg request) = Inl e) \<longleftrightarrow>
      CFLAGS_MAX_LEN cfg < length (composed_cflags cfg request)
      \<or> CODE_MAX_LEN cfg < length (or_empty (code request))
      \<or> ARGS_MAX_LEN cfg < length (or_empty (args request))
      \<or> (\<exists>i. suppliedIncludeFileId request = Some i \<and> getFileContents cfg i = None)
      \<or> (\<not> debug request \<and> (\<exists>bs. breakpoints request = Some bs \<and> bs \<noteq> [])))
   \<and> (\<forall>e. snd (getRunParams cfg request) = Inl e \<longrightarrow> (\<exists>m. e = ClientValidationError m))
   \<and> (\<forall>e. snd (getRunParams cfg request) = Inl e \<and> container s = None \<longrightarrow>
        container (fst (startContainer cfg inline s request)) = None
        \<and> \<not> connected (fst (startContainer cfg inline s request))
        \<and> SocketDisconnect \<in> set (snd (startContainer cfg inline s request))
        \<and> \<not> list_ex persists (snd (startContainer cfg inline s request))
        \<and> \<not> list_ex constructs (snd (startContainer cfg inline s request))
        \<and> \<not> list_ex emits (snd (startContainer cfg inline s request)))"
proof -
  have inc: "(\<exists>i. suppliedIncludeFileId request = Some i \<and> getFileContents cfg i = None)
     \<longleftrightarrow> ((case includeFileId request of None \<Rightarrow> False | Some i \<Rightarrow> i \<noteq> [])
          \<and> getFileContents cfg (the (includeFileId request)) = None)"
    by (auto simp: suppliedIncludeFileId_def split: option.splits)
  have bp: "(\<exists>bs. breakpoints request = Some bs \<and> bs \<noteq> [])
     \<longleftrightarrow> 0 < length (case breakpoints request of None \<Rightarrow> [] | Some bs \<Rightarrow> bs)"
    by (auto split: option.splits)
  have 1: "(\<exists>e. snd (getRunParams cfg request) = Inl e) \<longleftrightarrow>
      CFLAGS_MAX_LEN cfg < length (composed_cflags cfg request)
      \<or> CODE_MAX_LEN cfg < length (or_empty (code request))
      \<or> ARGS_MAX_LEN cfg < length (or_empty (args request))
      \<or> (\<exists>i. suppliedIncludeFileId request = Some i \<and> getFileContents cfg i = None)
      \<or> (\<not> debug request \<and> (\<exists>bs. breakpoints request = Some bs \<and> bs \<noteq> []))"
    unfolding inc bp by (simp add: getRunParams_def Let_def)
  have 2: "\<forall>e. snd (getRunParams cfg request) = Inl e \<longrightarrow> (\<exists>m. e = ClientValidationError m)"
    by (auto simp: getRunParams_def Let_def split: if_splits)
  have 3: "\<forall>e. snd (getRunParams cfg request) = Inl e \<and> container s = None \<longrightarrow>
        container (fst (startContainer cfg inline s request)) = None
        \<and> \<not> connected (fst (startContainer cfg inline s request))
        \<and> SocketDisconnect \<in> set (snd (startContainer cfg inline s request))
        \<and> \<not> list_ex persists (snd (startContainer cfg inline s request))
        \<and> \<not> list_ex constructs (snd (startContainer cfg inline s request))
        \<and> \<not> list_ex emits (snd (startContainer cfg inline s request))"
  proof (intro allI impI)
    fix e assume a: "snd (getRunParams cfg request) = Inl e \<and> container s = None"
    obtain w where g: "getRunParams cfg request = (w, Inl e)"
      using a by (cases "getRunParams cfg request") auto
    show "container (fst (startContainer cfg inline s request)) = None
        \<and> \<not> connected (fst (startContainer cfg inline s request))
        \<and> SocketDisconnect \<in> set (snd (startContainer cfg inline s request))
        \<and> \<not> list_ex persists (snd (startContainer cfg inline s request))
        \<and> \<not> list_ex constructs (snd (startContainer cfg inline s request))
        \<and> \<not> list_ex emits (snd (startContainer cfg inline s request))"
      using a g
      by (simp add: startContainer_def socket_disconnect_def onSocketDisconnect_def
          persists_def constructs_def emits_def Let_def)
  qed
  from 1 2 3 show ?thesis by blast
qed

theorem run_params_failures_witness:
  "CODE_MAX_LEN sample_config < length (or_empty (code oversized_request))
   \<and> snd (getRunParams sample_config oversized_request)
       = Inl (ClientValidationError ''Submitted code exceeds max length!'')
   \<and> container idle_session = None
   \<and> startContainer sample_config False idle_session oversized_request
       = (idle_session\<lparr>connected := False\<rparr>,
          [Console ''Warning: someone passed non-whitelisted flags!'',
           Console ''Failed to get valid run params!'', Console ''(the error)'',
           SocketDisconnect])"
proof -
  have l: "CODE_MAX_LEN sample_config < length (or_empty (code oversized_request))"
    by (simp add: sample_config_def oversized_request_def or_empty_def)
  note inst = run_params_failures [of sample_config oversized_request idle_session False]
  from inst l obtain e where e: "snd (getRunParams sample_config oversized_request) = Inl e"
    by blast
  with inst obtain m where "e = ClientValidationError m" by blast
  have i: "container idle_session = None" by (simp add: idle_session_def)
  from inst e i have "SocketDisconnect \<in> set (snd (startContainer sample_config False idle_session oversized_request))"
    by blast
  then show ?thesis
    using l i
    by (simp add: getRunParams_oversized startContainer_def socket_disconnect_def
        idle_session_def)
qed

section \<open>Properties of the session\<close>

text \<open>
  A run event that arrives while the session holds a container reference is ignored:
  the session is returned as it was (so the held container is not replaced), and the
  only effect is a console warning, whatever the request is: nothing is validated,
  persisted, constructed or emitted, and the socket is not disconnected.
\<close>

lemma run_while_running_ignored:
  assumes "container s \<noteq> None"
  shows "startContainer cfg inline s request
           = (s, [Console ''Got run command even though we already have a container running''])
       \<and> container (fst (startContainer cfg inline s request)) = container s
       \<and> startContainer cfg inline s request = startContainer cfg' inline' s request'
       \<and> \<not> list_ex persists (snd (startContainer cfg inline s request))
       \<and> \<not> list_ex constructs (snd (startContainer cfg inline s request))
       \<and> \<not> list_ex emits (snd (startContainer cfg inline s request))
       \<and> SocketDisconnect \<notin> set (snd (startContainer cfg inline s request))"
  using assms by (simp add: startContainer_def persists_def constructs_def emits_def)

lemma getRunParams_second:
  "getRunParams sample_config second_request = (True, Inr sample_params)"
  by (simp add: getRunParams_def composed_cflags_def effective_language_def suppliedCflags_def
      requested_flags_def flags_length_def second_request_def
      sample_config_def sample_request_def sample_params_def toLowerCase_def trim_def
      isWhiteSpace_def or_empty_def Let_def char_of_eq_iff)

text \<open>
  C8. The guard of startContainer looks at the container reference, and the reference is
  set only in the second callback of the persistence module. A second run event that
  arrives before then finds the session as the first one found it: it is validated and
  persisted like the first, it is not ignored. When the run of the first has been
  logged its container is constructed and held; when the run of the second has been
  logged a second container is constructed and takes the place of the first in the
  session, and no shutdown is called on the first. The session has then constructed two
  containers that both run.
\<close>

theorem second_run_before_container_is_set:
  "startContainer sample_config True idle_session sample_request
     = (idle_session, [Console ''Warning: someone passed non-whitelisted flags!'',
                       InsertProgram sample_params ''10.0.0.1'' ''agent''])
   \<and> startContainer sample_config True idle_session second_request
     = (idle_session, [Console ''Warning: someone passed non-whitelisted flags!'',
                       InsertProgram sample_params ''10.0.0.1'' ''agent''])
   \<and> onRunCreated idle_session sample_request sample_params ''alias-1'' 12
     = (running_session, [Console ''Run logged with ID'', SocketEmit (Saved ''alias-1''),
                          NewContainer sample_container])
   \<and> onRunCreated running_session second_request sample_params ''alias-2'' 13
     = (running_session\<lparr>runId := Some 13, container := Some second_container\<rparr>,
        [Console ''Run logged with ID'', SocketEmit (Saved ''alias-2''),
         NewContainer second_container])
   \<and> sample_container \<noteq> second_container"
proof -
  have 1: "startContainer sample_config True idle_session sample_request
     = (idle_session, [Console ''Warning: someone passed non-whitelisted flags!'',
                       InsertProgram sample_params ''10.0.0.1'' ''agent''])"
    by (simp add: startContainer_def getRunParams_sample idle_session_def)
  have 2: "startContainer sample_config True idle_session second_request
     = (idle_session, [Console ''Warning: someone passed non-whitelisted flags!'',
                       InsertProgram sample_params ''10.0.0.1'' ''agent''])"
    by (simp add: startContainer_def getRunParams_second idle_session_def)
  have 3: "onRunCreated idle_session sample_request sample_params ''alias-1'' 12
     = (running_session, [Console ''Run logged with ID'', SocketEmit (Saved ''alias-1''),
                          NewContainer sample_container])"
    by (simp add: onRunCreated_def running_session_def idle_session_def sample_container_def
        terminal_rows_def terminal_cols_def sample_request_def Let_def)
  have 4: "onRunCreated running_session second_request sample_params ''alias-2'' 13
     = (running_session\<lparr>runId := Some 13, container := Some second_container\<rparr>,
        [Console ''Run logged with ID'', SocketEmit (Saved ''alias-2''),
         NewContainer second_container])"
    by (simp add: onRunCreated_def second_container_def terminal_rows_def terminal_cols_def
        second_request_def sample_request_def Let_def)
  have 5: "sample_container \<noteq> second_container"
    by (simp add: sample_container_def second_container_def)
  from 1 2 3 4 5 show ?thesis by blast
qed

lemma handle_all_two:
  "handle_all s [ev, ev'] =
     (fst (handle (fst (handle s ev)) ev'), snd (handle s ev) @ snd (handle (fst (handle s ev)) ev'))"
  by (simp add: case_prod_unfold Let_def)

lemma handle_all_one: "handle_all s [ev] = handle s ev"
  by (simp add: case_prod_unfold Let_def)

lemma shutdown_calls_append:
  "shutdown_calls (xs @ ys) = shutdown_calls xs + shutdown_calls ys"
  by (simp add: shutdown_calls_def)

lemma exit_while_connected:
  assumes "container s = Some c" and "connected s"
  shows "shutdown_calls (snd (onContainerExit True s data)) = 1"
    and "container (fst (onContainerExit True s data)) = None"
    and "\<not> connected (fst (onContainerExit True s data))"
  using assms
  by (simp_all add: onContainerExit_def socket_disconnect_def onSocketDisconnect_def
      shutdown_calls_def Let_def)

lemma exit_while_disconnected:
  assumes "\<not> connected s"
  shows "shutdown_calls (snd (onContainerExit True s data)) = 0"
  using assms by (simp add: onContainerExit_def shutdown_calls_def Let_def)

lemma client_gone_while_connected:
  assumes "container s = Some c" and "connected s"
  shows "shutdown_calls (snd (socket_onclose s)) = 1"
    and "\<not> connected (fst (socket_onclose s))"
  using assms by (simp_all add: socket_onclose_def onSocketDisconnect_def shutdown_calls_def)

lemma client_gone_while_disconnected:
  assumes "\<not> connected s"
  shows "shutdown_calls (snd (socket_onclose s)) = 0"
  using assms by (simp add: socket_onclose_def shutdown_calls_def)

text \<open>
  C9, as the code has it. The disconnect handler calls shutdown only when the session
  holds a container: once then, and not at all for a session that holds none. A
  connected session that holds a container gets exactly one shutdown call when the
  client goes away, also when the exit notification of the container follows, and
  exactly one when the container reports its exit first: the exit handler disconnects
  the socket, whose listener calls shutdown, before it clears the container reference,
  and the client going away afterwards raises no further event.
\<close>

theorem disconnect_shutdown_calls:
  "shutdown_calls (snd (onSocketDisconnect s)) = (if container s = None then 0 else 1)
   \<and> (container s = None \<longrightarrow> shutdown_calls (snd (handle_all s [ClientGone])) = 0)
   \<and> (container s \<noteq> None \<and> connected s \<longrightarrow>
         shutdown_calls (snd (handle_all s [ClientGone])) = 1
         \<and> shutdown_calls (snd (handle_all s [ClientGone, ContainerExited data])) = 1
         \<and> shutdown_calls (snd (handle_all s [ContainerExited data])) = 1
         \<and> shutdown_calls (snd (handle_all s [ContainerExited data, ClientGone])) = 1
         \<and> container (fst (handle_all s [ContainerExited data])) = None)"
proof -
  have 1: "shutdown_calls (snd (onSocketDisconnect s)) = (if container s = None then 0 else 1)"
    by (auto simp: onSocketDisconnect_def shutdown_calls_def)
  have 2: "container s = None \<longrightarrow> shutdown_calls (snd (handle_all s [ClientGone])) = 0"
    unfolding handle_all_one
    by (simp add: handle_def socket_onclose_def onSocketDisconnect_def shutdown_calls_def)
  have 3: "container s \<noteq> None \<and> connected s \<longrightarrow>
         shutdown_calls (snd (handle_all s [ClientGone])) = 1
         \<and> shutdown_calls (snd (handle_all s [ClientGone, ContainerExited data])) = 1
         \<and> shutdown_calls (snd (handle_all s [ContainerExited data])) = 1
         \<and> shutdown_calls (snd (handle_all s [ContainerExited data, ClientGone])) = 1
         \<and> container (fst (handle_all s [ContainerExited data])) = None"
  proof
    assume "container s \<noteq> None \<and> connected s"
    then obtain c where c: "container s = Some c" and con: "connected s" by auto
    have a: "shutdown_calls (snd (handle_all s [ClientGone])) = 1"
      unfolding handle_all_one
      using client_gone_while_connected(1) [OF c con] by (simp add: handle_def)
    have b: "shutdown_calls (snd (handle_all s [ClientGone, ContainerExited data])) = 1"
      unfolding handle_all_two
      using client_gone_while_connected [OF c con]
        exit_while_disconnected [of "fst (socket_onclose s)" data]
      by (simp add: handle_def shutdown_calls_append)
    have d: "shutdown_calls (snd (handle_all s [ContainerExited data])) = 1"
      unfolding handle_all_one
      using exit_while_connected(1) [OF c con] by (simp add: handle_def)
    have e: "shutdown_calls (snd (handle_all s [ContainerExited data, ClientGone])) = 1"
      unfolding handle_all_two
      using exit_while_connected [OF c con, of data]
        client_gone_while_disconnected [of "fst (onContainerExit True s data)"]
      by (simp add: handle_def shutdown_calls_append)
    have f: "container (fst (handle_all s [ContainerExited data])) = None"
      unfolding handle_all_one
      using exit_while_connected(2) [OF c con] by (simp add: handle_def)
    from a b d e f
    show "shutdown_calls (snd (handle_all s [ClientGone])) = 1
         \<and> shutdown_calls (snd (handle_all s [ClientGone, ContainerExited data])) = 1
         \<and> shutdown_calls (snd (handle_all s [ContainerExited data])) = 1
         \<and> shutdown_calls (snd (handle_all s [ContainerExited data, ClientGone])) = 1
         \<and> container (fst (handle_all s [ContainerExited data])) = None"
      by blast
  qed
  from 1 2 3 show ?thesis by blast
qed

theorem disconnect_shutdown_calls_witness:
  "container running_session \<noteq> None \<and> connected running_session
   \<and> shutdown_calls (snd (handle_all running_session [ClientGone, ContainerExited sample_exit])) = 1
   \<and> shutdown_calls (snd (handle_all running_session [ContainerExited sample_exit, ClientGone])) = 1
   \<and> container idle_session = None
   \<and> shutdown_calls (snd (handle_all idle_session [ClientGone])) = 0"
proof -
  have r: "container running_session \<noteq> None \<and> connected running_session"
    by (simp add: running_session_def idle_session_def)
  have i: "container idle_session = None" by (simp add: idle_session_def)
  from disconnect_shutdown_calls [of running_session sample_exit] r
    disconnect_shutdown_calls [of idle_session sample_exit] i
  show ?thesis by simp
qed

text \<open>
  Where the claim as it was stated fails: a session that holds no container gets no
  shutdown call when it is disconnected.
\<close>

theorem disconnect_without_container_counterexample:
  "container idle_session = None
   \<and> shutdown_calls (snd (onSocketDisconnect idle_session)) = 0
   \<and> shutdown_calls (snd (handle_all idle_session [ClientGone])) = 0"
  unfolding handle_all_one
  by (simp add: handle_def socket_onclose_def onSocketDisconnect_def shutdown_calls_def
      idle_session_def)

lemma debug_handler_without_container:
  "container s = None \<Longrightarrow>
   makeDebugHandler executeCommand s data
     = Inr (s, [SocketEmit (CplaygroundError ''No program is currently running.'')])"
  by (simp add: makeDebugHandler_def)

lemma debug_handler_debug_state_error:
  "container s = Some c \<Longrightarrow> executeCommand data c = Some (DebugStateError message) \<Longrightarrow>
   makeDebugHandler executeCommand s data
     = Inr (s, [ContainerDebugCommand, SocketEmit (CplaygroundError message)])"
  by (simp add: makeDebugHandler_def)

lemma debug_handler_never_throws: "makeDebugHandler executeCommand s data \<noteq> Inl e"
  by (auto simp: makeDebugHandler_def split: option.splits error.splits)

text \<open>
  C2. With no container the handler emits the one error event and does nothing else, and
  a DebugStateError of the container call becomes an error event with its message while
  the session is left as it was (the two lemmas above). But no exception ever leaves
  the handler: an exception of the container call that is not a DebugStateError is
  caught and dropped, as here for a TypeError.
\<close>

theorem debug_handler_swallows_other_errors:
  "makeDebugHandler (\<lambda>data c. Some (TypeError ''Cannot read property of undefined''))
     running_session (1 :: int)
   = Inr (running_session, [ContainerDebugCommand])"
  by (simp add: makeDebugHandler_def running_session_def idle_session_def)

end
